theory Spec2Isabelle
  imports Main "HOL-Library.Word"
begin

section \<open>Python values, exceptions and strings\<close>

text \<open>
  The module \<^verbatim>\<open>guardrails/datatypes.py\<close> is embedded function by function. A Python
  \<^verbatim>\<open>str\<close> is a \<^typ>\<open>string\<close> whose characters are the code points below 256; every
  exception the code can raise is a value of \<open>error\<close>, and a function that can raise
  returns \<open>error + 'a\<close> with \<open>Inl\<close> the exception. The errors the specification
  calls TypeCoercionError and BindingError are, in the code, \<open>ValueError\<close>.
\<close>

datatype error =
    ValueError | TypeError | KeyError | IndexError | AttributeError
  | SyntaxError | NameError | ZeroDivisionError | RuntimeError | OtherError string

text \<open>
  Runtime values. Lists and dictionaries are mutable objects: a value refers to one
  by its address (\<open>VRef\<close>) and the object itself lives in the heap. A float is its
  IEEE-754 bit pattern; dates and times are the fields of \<^verbatim>\<open>datetime.date\<close> and
  \<^verbatim>\<open>datetime.time\<close>.
\<close>

datatype pyval =
    VNone
  | VBool bool
  | VInt int
  | VStr string
  | VFloat "64 word"
  | VDate int int int
  | VTime int int int int
  | VRef nat

text \<open>\<^verbatim>\<open>str.isspace\<close> on the code points below 256; it is also the class \<^verbatim>\<open>\s\<close>
  of \<^verbatim>\<open>re\<close> on \<^verbatim>\<open>str\<close> patterns.\<close>

definition isspace :: "char \<Rightarrow> bool" where
  "isspace c = (c \<in> {CHR 0x09, CHR 0x0A, CHR 0x0B, CHR 0x0C, CHR 0x0D,
                       CHR 0x1C, CHR 0x1D, CHR 0x1E, CHR 0x1F, CHR 0x20,
                       CHR 0x85, CHR 0xA0})"

definition strip :: "string \<Rightarrow> string" where
  "strip s = rev (dropWhile isspace (rev (dropWhile isspace s)))"

text \<open>\<^verbatim>\<open>s.split(":", 1)\<close>: the part before the first colon and, when there is a colon,
  the part after it.\<close>

fun split_colon :: "string \<Rightarrow> string \<times> string option" where
  "split_colon [] = ([], None)"
| "split_colon (c # cs) =
     (if c = CHR '':'' then ([], Some cs)
      else (case split_colon cs of (a, b) \<Rightarrow> (c # a, b)))"

section \<open>FormatAttr: the directive parser\<close>

text \<open>The lookahead \<^verbatim>\<open>[^{}]*}\<close>: the next brace in the rest exists and is a closing
  one.\<close>

fun closing_brace_ahead :: "string \<Rightarrow> bool" where
  "closing_brace_ahead [] = False"
| "closing_brace_ahead (c # cs) =
     (if c = CHR ''}'' then True
      else if c = CHR ''{'' then False
      else closing_brace_ahead cs)"

text \<open>The lookahead \<^verbatim>\<open>[^']*'$\<close>: the first single quote of the rest is its last
  character (\<^verbatim>\<open>$\<close> also matches before a final newline).\<close>

fun quote_closes_string :: "string \<Rightarrow> bool" where
  "quote_closes_string [] = False"
| "quote_closes_string (c # cs) =
     (if c = CHR 0x27 then (cs = [] \<or> cs = [CHR 0x0A])
      else quote_closes_string cs)"

text \<open>
  \<^verbatim>\<open>re.split(r";(?![^{}]*})", s)\<close>. Every match is one character, so the pieces are
  the stretches between the matching characters; \<open>cur\<close> is the piece being read.
\<close>

fun split_tokens :: "string \<Rightarrow> string \<Rightarrow> string list" where
  "split_tokens cur [] = [cur]"
| "split_tokens cur (c # cs) =
     (if c = CHR '';'' \<and> \<not> closing_brace_ahead cs
      then cur # split_tokens [] cs
      else split_tokens (cur @ [c]) cs)"

text \<open>
  \<^verbatim>\<open>re.split(r"\s(?![^{}]*})|(?<!')\s(?=[^']*'$)", s)\<close>: a whitespace character
  is a delimiter when the first alternative matches there or the second does; \<open>prev\<close>
  is the character before it, for the lookbehind.
\<close>

fun split_args :: "char option \<Rightarrow> string \<Rightarrow> string \<Rightarrow> string list" where
  "split_args prev cur [] = [cur]"
| "split_args prev cur (c # cs) =
     (if isspace c \<and>
         (\<not> closing_brace_ahead cs \<or> (prev \<noteq> Some (CHR 0x27) \<and> quote_closes_string cs))
      then cur # split_args (Some c) [] cs
      else split_args (Some c) (cur @ [c]) cs)"

text \<open>\<^verbatim>\<open>FormatAttr.tokens\<close>.\<close>

definition tokens :: "string option \<Rightarrow> string list" where
  "tokens format =
     (case format of
        None \<Rightarrow> []
      | Some f \<Rightarrow> filter (\<lambda>t. t \<noteq> []) (split_tokens [] f))"

text \<open>
  The loop of \<^verbatim>\<open>parse_token\<close> over the argument tokens. Python's \<^verbatim>\<open>eval\<close> is the
  parameter \<open>ev\<close>; of its exceptions the code catches ValueError, SyntaxError and
  NameError and raises ValueError, any other one propagates. \<^verbatim>\<open>t[0]\<close> on an empty
  string raises IndexError.
\<close>

definition parse_arg :: "(string \<Rightarrow> error + pyval) \<Rightarrow> string \<Rightarrow> error + pyval" where
  "parse_arg ev t0 =
     (let t = strip t0 in
      if t = [] then Inl IndexError
      else if hd t = CHR ''{'' \<and> last t = CHR ''}'' then
        (case ev (butlast (tl t)) of
           Inl e \<Rightarrow> if e \<in> {ValueError, SyntaxError, NameError} then Inl ValueError else Inl e
         | Inr v \<Rightarrow> Inr v)
      else Inr (VStr t))"

fun parse_args :: "(string \<Rightarrow> error + pyval) \<Rightarrow> string list \<Rightarrow> error + pyval list" where
  "parse_args ev [] = Inr []"
| "parse_args ev (t # ts) =
     (case parse_arg ev t of
        Inl e \<Rightarrow> Inl e
      | Inr a \<Rightarrow> (case parse_args ev ts of Inl e \<Rightarrow> Inl e | Inr as \<Rightarrow> Inr (a # as)))"

text \<open>The argument tokens of \<^verbatim>\<open>parse_token\<close>: the regular-expression split with the
  empty pieces filtered out.\<close>

definition arg_tokens :: "string \<Rightarrow> string list" where
  "arg_tokens args_token = filter (\<lambda>t. t \<noteq> []) (split_args None [] args_token)"

definition parse_token :: "(string \<Rightarrow> error + pyval) \<Rightarrow> string \<Rightarrow> error + (string \<times> pyval list)" where
  "parse_token ev token =
     (case split_colon (strip token) of
        (v, None) \<Rightarrow> Inr (strip v, [])
      | (validator, Some args_token) \<Rightarrow>
          (case parse_args ev (arg_tokens args_token) of
             Inl e \<Rightarrow> Inl e
           | Inr args \<Rightarrow> Inr (strip validator, args)))"

text \<open>\<^verbatim>\<open>validators[validator_name] = args\<close> on a Python dict, which keeps insertion
  order: an existing key keeps its place and takes the new value.\<close>

fun dict_set :: "('k \<times> 'v) list \<Rightarrow> 'k \<Rightarrow> 'v \<Rightarrow> ('k \<times> 'v) list" where
  "dict_set [] k v = [(k, v)]"
| "dict_set ((k', v') # m) k v = (if k' = k then (k', v) # m else (k', v') # dict_set m k v)"

fun parse_loop :: "(string \<Rightarrow> error + pyval) \<Rightarrow> string list \<Rightarrow> (string \<times> pyval list) list
    \<Rightarrow> error + (string \<times> pyval list) list" where
  "parse_loop ev [] validators = Inr validators"
| "parse_loop ev (token # ts) validators =
     (case parse_token ev token of
        Inl e \<Rightarrow> Inl e
      | Inr (validator_name, args) \<Rightarrow> parse_loop ev ts (dict_set validators validator_name args))"

definition parse :: "(string \<Rightarrow> error + pyval) \<Rightarrow> string option \<Rightarrow> error + (string \<times> pyval list) list" where
  "parse ev format = (case format of None \<Rightarrow> Inr [] | Some f \<Rightarrow> parse_loop ev (tokens format) [])"

subsection \<open>Binding validators\<close>

text \<open>An XML element, as far as the module reads it: its tag and its attributes.\<close>

record element =
  tag :: string
  attrib :: "(string \<times> string) list"

text \<open>
  \<^verbatim>\<open>get_validators\<close>. The tables \<^verbatim>\<open>types_to_validators\<close> and \<^verbatim>\<open>validators_registry\<close>
  come from \<^verbatim>\<open>guardrails.validators\<close>, which is not part of this module: they are
  parameters, a missing key raising KeyError. A registry entry is the validator's
  constructor, taking the arguments and \<^verbatim>\<open>on_fail\<close>; it may raise. The result is the
  pair the method stores in \<^verbatim>\<open>_validators\<close> and \<^verbatim>\<open>_unregistered_validators\<close>.
  The field \<^verbatim>\<open>element\<close> is optional; reading the tag of \<^verbatim>\<open>None\<close> raises AttributeError.
\<close>

type_synonym 'v ctor = "pyval list \<Rightarrow> string option \<Rightarrow> error + 'v"

fun get_validators_loop ::
  "bool \<Rightarrow> (string \<Rightarrow> string list option) \<Rightarrow> (string \<Rightarrow> 'v ctor option) \<Rightarrow> element option
    \<Rightarrow> (string \<times> pyval list) list \<Rightarrow> 'v list \<Rightarrow> string list \<Rightarrow> error + ('v list \<times> string list)" where
  "get_validators_loop strict types_to_validators validators_registry element [] vs unreg = Inr (vs, unreg)"
| "get_validators_loop strict types_to_validators validators_registry element ((validator_name, args) # parsed) vs unreg =
     (case element of
        None \<Rightarrow> Inl AttributeError
      | Some el \<Rightarrow>
          (case types_to_validators (tag el) of
             None \<Rightarrow> Inl KeyError
           | Some applicable \<Rightarrow>
               if validator_name \<notin> set applicable then
                 (if strict then Inl ValueError
                  else get_validators_loop strict types_to_validators validators_registry element parsed
                         vs (unreg @ [validator_name]))
               else
                 (case validators_registry validator_name of
                    None \<Rightarrow> Inl KeyError
                  | Some validator \<Rightarrow>
                      (case validator args (map_of (attrib el) (''on-fail-'' @ validator_name)) of
                         Inl e \<Rightarrow> Inl e
                       | Inr v \<Rightarrow> get_validators_loop strict types_to_validators validators_registry element parsed
                                   (vs @ [v]) unreg))))"

definition get_validators ::
  "(string \<Rightarrow> error + pyval) \<Rightarrow> (string \<Rightarrow> string list option) \<Rightarrow> (string \<Rightarrow> 'v ctor option)
    \<Rightarrow> string option \<Rightarrow> element option \<Rightarrow> bool \<Rightarrow> error + ('v list \<times> string list)" where
  "get_validators ev types_to_validators validators_registry format element strict =
     (case parse ev format of
        Inl e \<Rightarrow> Inl e
      | Inr parsed \<Rightarrow> get_validators_loop strict types_to_validators validators_registry element parsed [] [])"

section \<open>The heap\<close>

text \<open>
  The mutable objects. A dictionary keeps its entries in insertion order. The
  validation code allocates nothing, so the heap is a total function from addresses to
  objects and every reference points at one.
\<close>

datatype pyobj = PyList "pyval list" | PyDict "(pyval \<times> pyval) list"

type_synonym heap = "nat \<Rightarrow> pyobj"

text \<open>Dictionary keys are compared with \<^verbatim>\<open>==\<close>, under which \<^verbatim>\<open>True\<close> is \<^verbatim>\<open>1\<close> and
  \<^verbatim>\<open>False\<close> is \<^verbatim>\<open>0\<close>; floats are compared by their bits here. A reference (a list or
  a dict) is not hashable.\<close>

fun key_norm :: "pyval \<Rightarrow> pyval" where
  "key_norm (VBool b) = VInt (if b then 1 else 0)"
| "key_norm v = v"

fun hashable :: "pyval \<Rightarrow> bool" where
  "hashable (VRef a) = False"
| "hashable v = True"

fun dict_lookup :: "(pyval \<times> pyval) list \<Rightarrow> pyval \<Rightarrow> pyval option" where
  "dict_lookup [] k = None"
| "dict_lookup ((k', v) # m) k = (if key_norm k' = key_norm k then Some v else dict_lookup m k)"

fun dict_store :: "(pyval \<times> pyval) list \<Rightarrow> pyval \<Rightarrow> pyval \<Rightarrow> (pyval \<times> pyval) list" where
  "dict_store [] k v = [(k, v)]"
| "dict_store ((k', v') # m) k v =
     (if key_norm k' = key_norm k then (k', v) # m else (k', v') # dict_store m k v)"

text \<open>A sequence index: an \<^verbatim>\<open>int\<close> (or \<^verbatim>\<open>bool\<close>), negative ones counted from the end.\<close>

definition seq_index :: "nat \<Rightarrow> pyval \<Rightarrow> error + nat" where
  "seq_index len k =
     (case key_norm k of
        VInt i \<Rightarrow>
          (let j = (if i < 0 then i + int len else i)
           in if 0 \<le> j \<and> j < int len then Inr (nat j) else Inl IndexError)
      | _ \<Rightarrow> Inl TypeError)"

text \<open>\<^verbatim>\<open>container[key]\<close>.\<close>

definition getitem :: "pyval \<Rightarrow> pyval \<Rightarrow> heap \<Rightarrow> error + pyval" where
  "getitem container key h =
     (case container of
        VRef a \<Rightarrow>
          (case h a of
             PyDict m \<Rightarrow>
               if \<not> hashable key then Inl TypeError
               else (case dict_lookup m key of None \<Rightarrow> Inl KeyError | Some v \<Rightarrow> Inr v)
           | PyList xs \<Rightarrow>
               (case seq_index (length xs) key of Inl e \<Rightarrow> Inl e | Inr i \<Rightarrow> Inr (xs ! i)))
      | VStr str \<Rightarrow>
          (case seq_index (length str) key of Inl e \<Rightarrow> Inl e | Inr i \<Rightarrow> Inr (VStr [str ! i]))
      | _ \<Rightarrow> Inl TypeError)"

text \<open>\<^verbatim>\<open>container[key] = value\<close>.\<close>

definition setitem :: "pyval \<Rightarrow> pyval \<Rightarrow> pyval \<Rightarrow> heap \<Rightarrow> error + heap" where
  "setitem container key v h =
     (case container of
        VRef a \<Rightarrow>
          (case h a of
             PyDict m \<Rightarrow>
               if \<not> hashable key then Inl TypeError
               else Inr (h(a := PyDict (dict_store m key v)))
           | PyList xs \<Rightarrow>
               (case seq_index (length xs) key of
                  Inl e \<Rightarrow> Inl e
                | Inr i \<Rightarrow> Inr (h(a := PyList (xs[i := v])))))
      | _ \<Rightarrow> Inl TypeError)"

text \<open>\<^verbatim>\<open>value.get(key, None)\<close>: only a dict has the method.\<close>

definition dict_get :: "pyval \<Rightarrow> pyval \<Rightarrow> heap \<Rightarrow> error + pyval" where
  "dict_get v key h =
     (case v of
        VRef a \<Rightarrow>
          (case h a of
             PyDict m \<Rightarrow>
               if \<not> hashable key then Inl TypeError
               else Inr (case dict_lookup m key of None \<Rightarrow> VNone | Some x \<Rightarrow> x)
           | PyList xs \<Rightarrow> Inl AttributeError)
      | _ \<Rightarrow> Inl AttributeError)"

text \<open>
  Iteration. \<^verbatim>\<open>enumerate(value)\<close> takes an iterator of the object \<open>value\<close> names at
  that moment; the iterator reads the live object at every step. A list iterator
  stops when its index reaches the current length; a dict iterator yields the keys and
  raises RuntimeError when the number of entries has changed; a string yields its
  characters. Anything else is not iterable.
\<close>

datatype iter = ListIter nat | DictIter nat nat | StrIter string

definition py_iter :: "pyval \<Rightarrow> heap \<Rightarrow> error + iter" where
  "py_iter v h =
     (case v of
        VRef a \<Rightarrow> (case h a of PyList xs \<Rightarrow> Inr (ListIter a) | PyDict m \<Rightarrow> Inr (DictIter a (length m)))
      | VStr str \<Rightarrow> Inr (StrIter str)
      | _ \<Rightarrow> Inl TypeError)"

definition iter_next :: "iter \<Rightarrow> nat \<Rightarrow> heap \<Rightarrow> error + pyval option" where
  "iter_next it i h =
     (case it of
        ListIter a \<Rightarrow>
          (case h a of
             PyList xs \<Rightarrow> Inr (if i < length xs then Some (xs ! i) else None)
           | PyDict m \<Rightarrow> Inl TypeError)
      | DictIter a len \<Rightarrow>
          (case h a of
             PyDict m \<Rightarrow>
               if length m \<noteq> len then Inl RuntimeError
               else Inr (if i < length m then Some (fst (m ! i)) else None)
           | PyList xs \<Rightarrow> Inl TypeError)
      | StrIter str \<Rightarrow> Inr (if i < length str then Some (VStr [str ! i]) else None))"

section \<open>The schema tree\<close>

text \<open>
  A bound validator is outside this module: \<^verbatim>\<open>validate_with_correction(key, value,
  schema)\<close> is any function of its three arguments and the heap that returns a schema
  or raises, and leaves a heap behind.
\<close>

type_synonym validator = "pyval \<Rightarrow> pyval \<Rightarrow> pyval \<Rightarrow> heap \<Rightarrow> (error + pyval) \<times> heap"

datatype pyclass =
    String | Integer | Float | Boolean | Date | Time | Email | URL | Percentage
  | List | Object | Choice | Case

text \<open>
  An instance of \<^verbatim>\<open>DataType\<close>: its class, \<^verbatim>\<open>_children\<close> (a dict, in insertion order),
  the attribute \<^verbatim>\<open>validators\<close>, the further instance attributes that hold a string
  (\<^verbatim>\<open>date_format\<close>, \<^verbatim>\<open>time_format\<close>) and the attributes of \<^verbatim>\<open>self.element\<close>.
  No statement of the module assigns \<^verbatim>\<open>self.element\<close> (the assignment in
  \<^verbatim>\<open>DataType.__init__\<close> is commented out): the last field is \<open>None\<close> for an instance
  without that attribute, and holds the element's attributes when something outside
  the module has set it.
\<close>

datatype node =
  Node (cls: pyclass) (children: "(string \<times> node) list") (validators: "validator list")
       (attrs: "(string \<times> string) list") (element_attrib: "(string \<times> string) list option")

text \<open>What the module takes from outside: the builtins \<^verbatim>\<open>int\<close> and \<^verbatim>\<open>float\<close>,
  \<^verbatim>\<open>datetime.strptime(s, format).date()\<close> and \<^verbatim>\<open>.time()\<close>, and the constructor of the
  \<^verbatim>\<open>Choice\<close> validator of \<^verbatim>\<open>guardrails.validators\<close>.\<close>

record env =
  py_int :: "pyval \<Rightarrow> error + pyval"
  py_float :: "pyval \<Rightarrow> error + pyval"
  strptime_date :: "pyval \<Rightarrow> string \<Rightarrow> error + pyval"
  strptime_time :: "pyval \<Rightarrow> string \<Rightarrow> error + pyval"
  ChoiceValidator :: "string list \<Rightarrow> string option \<Rightarrow> validator"

text \<open>\<^verbatim>\<open>str.lower\<close> on the code points below 256.\<close>

definition lower_char :: "char \<Rightarrow> char" where
  "lower_char c =
     (let n = (of_char c :: nat)
      in if (65 \<le> n \<and> n \<le> 90) \<or> (192 \<le> n \<and> n \<le> 222 \<and> n \<noteq> 215) then char_of (n + 32) else c)"

text \<open>\<^verbatim>\<open>from_str\<close>, by class. \<^verbatim>\<open>String\<close> overrides it with the identity of the base
  class; the classes not named here inherit that.\<close>

definition from_str :: "env \<Rightarrow> node \<Rightarrow> pyval \<Rightarrow> error + pyval" where
  "from_str env self s =
     (case cls self of
        Integer \<Rightarrow> if s = VNone then Inr VNone else py_int env s
      | Float \<Rightarrow> if s = VNone then Inr VNone else py_float env s
      | Boolean \<Rightarrow>
          (case s of
             VNone \<Rightarrow> Inr VNone
           | VBool b \<Rightarrow> Inr s
           | VStr str \<Rightarrow>
               if map lower_char str = ''true'' then Inr (VBool True)
               else if map lower_char str = ''false'' then Inr (VBool False)
               else Inl ValueError
           | _ \<Rightarrow> Inl AttributeError)
      | Date \<Rightarrow>
          if s = VNone then Inr VNone
          else (case map_of (attrs self) ''date_format'' of
                  None \<Rightarrow> Inl AttributeError
                | Some f \<Rightarrow> strptime_date env s f)
      | Time \<Rightarrow>
          if s = VNone then Inr VNone
          else (case map_of (attrs self) ''time_format'' of
                  None \<Rightarrow> Inl AttributeError
                | Some f \<Rightarrow> strptime_time env s f)
      | _ \<Rightarrow> Inr s)"

section \<open>Validation\<close>

text \<open>
  The state of a run: the heap, and a log of the calls of \<^verbatim>\<open>validate_with_correction\<close>
  made so far, each with its three arguments. An exception leaves the state as it is
  at the raise.
\<close>

record state =
  heap :: heap
  calls :: "(pyval \<times> pyval \<times> pyval) list"

text \<open>\<^verbatim>\<open>for validator in self.validators: schema = validator.validate_with_correction(key,
  value, schema)\<close>.\<close>

fun run_validators :: "validator list \<Rightarrow> pyval \<Rightarrow> pyval \<Rightarrow> pyval \<Rightarrow> state \<Rightarrow> (error + pyval) \<times> state" where
  "run_validators [] key v schema s = (Inr schema, s)"
| "run_validators (validator # vs) key v schema s =
     (case validator key v schema (heap s) of
        (Inl e, h) \<Rightarrow> (Inl e, \<lparr>heap = h, calls = calls s @ [(key, v, schema)]\<rparr>)
      | (Inr schema', h) \<Rightarrow>
          run_validators vs key v schema' \<lparr>heap = h, calls = calls s @ [(key, v, schema)]\<rparr>)"

text \<open>\<^verbatim>\<open>self.validators\<close>: the attribute, except in \<^verbatim>\<open>Choice\<close>, where it is a property
  that builds one validator from the names of the cases and the element's
  \<^verbatim>\<open>on-fail-choice\<close> attribute. Reading \<^verbatim>\<open>self.element\<close> on an instance without that
  attribute raises AttributeError.\<close>

definition self_validators :: "env \<Rightarrow> node \<Rightarrow> error + validator list" where
  "self_validators env self =
     (if cls self = Choice
      then (case element_attrib self of
              None \<Rightarrow> Inl AttributeError
            | Some attributes \<Rightarrow>
                Inr [ChoiceValidator env (map fst (children self)) (map_of attributes ''on-fail-choice'')])
      else Inr (validators self))"

text \<open>\<^verbatim>\<open>DataType.validate\<close>.\<close>

definition DataType_validate :: "env \<Rightarrow> node \<Rightarrow> pyval \<Rightarrow> pyval \<Rightarrow> pyval \<Rightarrow> state \<Rightarrow> (error + pyval) \<times> state" where
  "DataType_validate env self key v schema s =
     (case from_str env self v of
        Inl e \<Rightarrow> (Inl e, s)
      | Inr v' \<Rightarrow>
          (case self_validators env self of
             Inl e \<Rightarrow> (Inl e, s)
           | Inr vs \<Rightarrow> run_validators vs key v' schema s))"

text \<open>\<^verbatim>\<open>self._children[selected_key]\<close>: the keys of \<^verbatim>\<open>_children\<close> are strings.\<close>

definition children_getitem :: "(string \<times> node) list \<Rightarrow> pyval \<Rightarrow> error + node" where
  "children_getitem cs k =
     (case k of
        VStr name \<Rightarrow> (case map_of cs name of None \<Rightarrow> Inl KeyError | Some c \<Rightarrow> Inr c)
      | VRef a \<Rightarrow> Inl TypeError
      | _ \<Rightarrow> Inl KeyError)"

text \<open>
  A call of \<^verbatim>\<open>validate\<close> returns a schema or raises, and leaves a state; it may also
  not return at all (see below), which is \<open>None\<close>. The methods call \<^verbatim>\<open>validate\<close> on
  child nodes: in the definitions that follow, \<open>rec\<close> is that method.
\<close>

type_synonym outcome = "((error + pyval) \<times> state) option"

type_synonym validate_method = "node \<Rightarrow> pyval \<Rightarrow> pyval \<Rightarrow> pyval \<Rightarrow> state \<Rightarrow> outcome"

text \<open>
  The loop of \<^verbatim>\<open>List.validate\<close>: \<^verbatim>\<open>for i, item in enumerate(value): value =
  item_type.validate(i, item, value)\<close>. A validator may lengthen the list that is being
  iterated, so the loop need not end: it takes fuel, one unit for each turn, and
  \<open>None\<close> says that the fuel ran out.
\<close>

fun List_items :: "validate_method \<Rightarrow> nat \<Rightarrow> node \<Rightarrow> iter \<Rightarrow> nat \<Rightarrow> pyval \<Rightarrow> state \<Rightarrow> outcome" where
  "List_items rec 0 item_type it i v s = None"
| "List_items rec (Suc n) item_type it i v s =
     (case iter_next it i (heap s) of
        Inl e \<Rightarrow> Some (Inl e, s)
      | Inr None \<Rightarrow> Some (Inr v, s)
      | Inr (Some item) \<Rightarrow>
          (case rec item_type (VInt (int i)) item v s of
             None \<Rightarrow> None
           | Some (Inl e, s') \<Rightarrow> Some (Inl e, s')
           | Some (Inr v', s') \<Rightarrow> List_items rec n item_type it (Suc i) v' s'))"

text \<open>\<^verbatim>\<open>List.validate\<close>. It returns \<^verbatim>\<open>schema\<close>, not the \<^verbatim>\<open>value\<close> of the loop.\<close>

definition List_validate :: "validate_method \<Rightarrow> nat \<Rightarrow> node \<Rightarrow> pyval \<Rightarrow> pyval \<Rightarrow> pyval \<Rightarrow> state \<Rightarrow> outcome" where
  "List_validate rec fuel self key v schema s =
     (case run_validators (validators self) key v schema s of
        (Inl e, s1) \<Rightarrow> Some (Inl e, s1)
      | (Inr schema1, s1) \<Rightarrow>
          (case children self of
             [] \<Rightarrow> Some (Inr schema1, s1)
           | (name, item_type) # others \<Rightarrow>
               (case py_iter v (heap s1) of
                  Inl e \<Rightarrow> Some (Inl e, s1)
                | Inr it \<Rightarrow>
                    (case List_items rec fuel item_type it 0 v s1 of
                       None \<Rightarrow> None
                     | Some (Inl e, s2) \<Rightarrow> Some (Inl e, s2)
                     | Some (Inr v', s2) \<Rightarrow> Some (Inr schema1, s2)))))"

text \<open>The loop of \<^verbatim>\<open>Object.validate\<close> over \<^verbatim>\<open>self._children.items()\<close>.\<close>

fun Object_children :: "validate_method \<Rightarrow> (string \<times> node) list \<Rightarrow> pyval \<Rightarrow> state \<Rightarrow> outcome" where
  "Object_children rec [] v s = Some (Inr v, s)"
| "Object_children rec ((child_key, child_data_type) # cs) v s =
     (case dict_get v (VStr child_key) (heap s) of
        Inl e \<Rightarrow> Some (Inl e, s)
      | Inr x \<Rightarrow>
          (case rec child_data_type (VStr child_key) x v s of
             None \<Rightarrow> None
           | Some (Inl e, s') \<Rightarrow> Some (Inl e, s')
           | Some (Inr v', s') \<Rightarrow> Object_children rec cs v' s'))"

text \<open>\<^verbatim>\<open>Object.validate\<close>.\<close>

definition Object_validate :: "validate_method \<Rightarrow> node \<Rightarrow> pyval \<Rightarrow> pyval \<Rightarrow> pyval \<Rightarrow> state \<Rightarrow> outcome" where
  "Object_validate rec self key v schema s =
     (case run_validators (validators self) key v schema s of
        (Inl e, s1) \<Rightarrow> Some (Inl e, s1)
      | (Inr schema1, s1) \<Rightarrow>
          if children self = [] then Some (Inr schema1, s1)
          else
            (case Object_children rec (children self) v s1 of
               None \<Rightarrow> None
             | Some (Inl e, s2) \<Rightarrow> Some (Inl e, s2)
             | Some (Inr v', s2) \<Rightarrow>
                 (case setitem schema1 key v' (heap s2) of
                    Inl e \<Rightarrow> Some (Inl e, s2)
                  | Inr h \<Rightarrow> Some (Inr schema1, s2\<lparr>heap := h\<rparr>))))"

text \<open>\<^verbatim>\<open>Choice.validate\<close>. What \<^verbatim>\<open>super().validate\<close> and the case's \<^verbatim>\<open>validate\<close>
  return is dropped; what they did to the heap stays.\<close>

definition Choice_validate :: "validate_method \<Rightarrow> env \<Rightarrow> node \<Rightarrow> pyval \<Rightarrow> pyval \<Rightarrow> pyval \<Rightarrow> state \<Rightarrow> outcome" where
  "Choice_validate rec env self key v schema s =
     (case DataType_validate env self key v schema s of
        (Inl e, s1) \<Rightarrow> Some (Inl e, s1)
      | (Inr unused, s1) \<Rightarrow>
          (case getitem schema v (heap s1) of
             Inl e \<Rightarrow> Some (Inl e, s1)
           | Inr selected_value \<Rightarrow>
               (case children_getitem (children self) v of
                  Inl e \<Rightarrow> Some (Inl e, s1)
                | Inr child \<Rightarrow>
                    (case rec child v selected_value schema s1 of
                       None \<Rightarrow> None
                     | Some (Inl e, s2) \<Rightarrow> Some (Inl e, s2)
                     | Some (Inr unused2, s2) \<Rightarrow>
                         (case setitem schema key v (heap s2) of
                            Inl e \<Rightarrow> Some (Inl e, s2)
                          | Inr h \<Rightarrow> Some (Inr schema, s2\<lparr>heap := h\<rparr>))))))"

text \<open>\<^verbatim>\<open>Case.validate\<close>; \<^verbatim>\<open>list(self._children.values())[0]\<close> raises IndexError when
  there is no child.\<close>

definition Case_validate :: "validate_method \<Rightarrow> node \<Rightarrow> pyval \<Rightarrow> pyval \<Rightarrow> pyval \<Rightarrow> state \<Rightarrow> outcome" where
  "Case_validate rec self key v schema s =
     (case children self of
        [] \<Rightarrow> Some (Inl IndexError, s)
      | (name, child) # others \<Rightarrow>
          (case rec child key v schema s of
             None \<Rightarrow> None
           | Some (Inl e, s1) \<Rightarrow> Some (Inl e, s1)
           | Some (Inr unused, s1) \<Rightarrow>
               (case setitem schema key v (heap s1) of
                  Inl e \<Rightarrow> Some (Inl e, s1)
                | Inr h \<Rightarrow> Some (Inr schema, s1\<lparr>heap := h\<rparr>))))"

text \<open>
  \<^verbatim>\<open>validate\<close>, dispatched on the class of \<open>self\<close>. With fuel \<open>Suc n\<close> the children are
  validated with fuel \<open>n\<close> and the loop over a list makes at most \<open>n\<close> turns.
\<close>

primrec validate :: "nat \<Rightarrow> env \<Rightarrow> node \<Rightarrow> pyval \<Rightarrow> pyval \<Rightarrow> pyval \<Rightarrow> state \<Rightarrow> outcome" where
  "validate 0 env self key v schema s = None"
| "validate (Suc n) env self key v schema s =
     (case cls self of
        List \<Rightarrow> List_validate (validate n env) n self key v schema s
      | Object \<Rightarrow> Object_validate (validate n env) self key v schema s
      | Choice \<Rightarrow> Choice_validate (validate n env) env self key v schema s
      | Case \<Rightarrow> Case_validate (validate n env) self key v schema s
      | _ \<Rightarrow> Some (DataType_validate env self key v schema s))"

declare validate.simps [simp del]


section \<open>Construction from markup: the time format\<close>

text \<open>\<^verbatim>\<open>setattr\<close> on a node, for the string attributes.\<close>

definition setattr :: "node \<Rightarrow> string \<Rightarrow> string \<Rightarrow> node" where
  "setattr self name x =
     Node (cls self) (children self) (validators self) (dict_set (attrs self) name x) (element_attrib self)"

text \<open>
  \<^verbatim>\<open>Date.__init__\<close> and \<^verbatim>\<open>Time.__init__\<close> set the default pattern and call the base
  constructor with three arguments, which leaves \<^verbatim>\<open>validators\<close> empty. (The base
  constructor takes them as name, description and children; a scalar node never reads
  its children, which are empty here.)
\<close>

definition Date_init :: node where
  "Date_init = Node Date [] [] [(''date_format'', ''%Y-%m-%d'')] None"

definition Time_init :: node where
  "Time_init = Node Time [] [] [(''time_format'', ''%H:%M:%S'')] None"

text \<open>
  The class body of \<^verbatim>\<open>DataType\<close> defines \<^verbatim>\<open>from_xml\<close> twice, and the second
  definition, \<^verbatim>\<open>from_xml(cls, element)\<close>, replaces the first. The call
  \<^verbatim>\<open>super().from_xml(element, strict)\<close> of \<^verbatim>\<open>Date\<close> and \<^verbatim>\<open>Time\<close> passes one argument
  too many and raises TypeError.
\<close>

definition super_from_xml :: "element \<Rightarrow> bool \<Rightarrow> error + node" where
  "super_from_xml el strict = Inl TypeError"

text \<open>\<^verbatim>\<open>Date.from_xml\<close> and \<^verbatim>\<open>Time.from_xml\<close>, with the base method as a parameter.
  Both assign to \<^verbatim>\<open>date_format\<close>.\<close>

definition Date_from_xml :: "(element \<Rightarrow> bool \<Rightarrow> error + node) \<Rightarrow> element \<Rightarrow> bool \<Rightarrow> error + node" where
  "Date_from_xml base el strict =
     (case base el strict of
        Inl e \<Rightarrow> Inl e
      | Inr datatype \<Rightarrow>
          (case map_of (attrib el) ''date-format'' of
             None \<Rightarrow> Inr datatype
           | Some f \<Rightarrow> Inr (setattr datatype ''date_format'' f)))"

definition Time_from_xml :: "(element \<Rightarrow> bool \<Rightarrow> error + node) \<Rightarrow> element \<Rightarrow> bool \<Rightarrow> error + node" where
  "Time_from_xml base el strict =
     (case base el strict of
        Inl e \<Rightarrow> Inl e
      | Inr datatype \<Rightarrow>
          (case map_of (attrib el) ''time-format'' of
             None \<Rightarrow> Inr datatype
           | Some f \<Rightarrow> Inr (setattr datatype ''date_format'' f)))"

section \<open>A concrete environment for closed examples\<close>

text \<open>
  \<^verbatim>\<open>int\<close> on the values of this model: a string is stripped and read as an optionally
  signed decimal literal, whose digits a single underscore may separate; an integer is
  itself and a boolean is 0 or 1. Floats are not converted here. The whitespace that
  \<^verbatim>\<open>int\<close> strips is that of \<^verbatim>\<open>str.strip\<close> without the four separators U+001C to U+001F,
  on which \<^verbatim>\<open>int\<close> raises ValueError.
\<close>

definition int_space :: "char \<Rightarrow> bool" where
  "int_space c = (isspace c \<and> c \<notin> {CHR 0x1C, CHR 0x1D, CHR 0x1E, CHR 0x1F})"

definition is_digit :: "char \<Rightarrow> bool" where
  "is_digit c = (c \<in> set ''0123456789'')"

definition digit_val :: "char \<Rightarrow> int" where
  "digit_val c = int (of_char c) - 48"

fun dec_digits :: "string \<Rightarrow> bool \<Rightarrow> int \<Rightarrow> int option" where
  "dec_digits [] after_digit acc = (if after_digit then Some acc else None)"
| "dec_digits (c # cs) after_digit acc =
     (if is_digit c then dec_digits cs True (acc * 10 + digit_val c)
      else if c = CHR ''_'' \<and> after_digit then dec_digits cs False acc
      else None)"

definition int_of_string :: "string \<Rightarrow> error + pyval" where
  "int_of_string str =
     (let t = rev (dropWhile int_space (rev (dropWhile int_space str)));
          neg = (t \<noteq> [] \<and> hd t = CHR ''-'');
          body = (if t \<noteq> [] \<and> (hd t = CHR ''-'' \<or> hd t = CHR ''+'') then tl t else t)
      in case dec_digits body False 0 of
           None \<Rightarrow> Inl ValueError
         | Some n \<Rightarrow> Inr (VInt (if neg then - n else n)))"

definition sample_int :: "pyval \<Rightarrow> error + pyval" where
  "sample_int v =
     (case v of
        VStr str \<Rightarrow> int_of_string str
      | VInt i \<Rightarrow> Inr (VInt i)
      | VBool b \<Rightarrow> Inr (VInt (if b then 1 else 0))
      | VFloat w \<Rightarrow> Inl (OtherError ''float to int: not modelled'')
      | _ \<Rightarrow> Inl TypeError)"

text \<open>A validator that passes: it returns the schema it was given and leaves the heap
  alone.\<close>

definition passing :: validator where
  "passing key v schema h = (Inr schema, h)"

definition sample_env :: env where
  "sample_env =
     \<lparr> py_int = sample_int,
       py_float = (\<lambda>v. Inl (OtherError ''float: not modelled'')),
       strptime_date = (\<lambda>v f. Inl (OtherError ''strptime: not modelled'')),
       strptime_time = (\<lambda>v f. Inl (OtherError ''strptime: not modelled'')),
       ChoiceValidator = (\<lambda>choices on_fail. passing) \<rparr>"


text \<open>A finite table standing for \<^verbatim>\<open>eval\<close> in closed examples: the two sums of the
  documented example, a syntax error for anything else.\<close>

definition table_eval :: "string \<Rightarrow> error + pyval" where
  "table_eval s = (if s = ''1+2'' then Inr (VInt 3) else if s = ''2+3'' then Inr (VInt 5) else Inl SyntaxError)"

text \<open>Sample tables for \<^verbatim>\<open>get_validators\<close>: two validators apply to \<^verbatim>\<open>string\<close>
  elements, and a constructor records its name, its arguments and \<^verbatim>\<open>on_fail\<close>.\<close>

definition sample_types_to_validators :: "string \<Rightarrow> string list option" where
  "sample_types_to_validators t = (if t = ''string'' then Some [''valid-url'', ''length''] else None)"

definition sample_registry :: "string \<Rightarrow> (string \<times> pyval list \<times> string option) ctor option" where
  "sample_registry name = Some (\<lambda>args on_fail. Inr (name, args, on_fail))"

definition sample_element :: element where
  "sample_element = \<lparr>tag = ''string'', attrib = [(''name'', ''u''), (''on-fail-length'', ''fix'')]\<rparr>"

text \<open>The documented example of an object: the schema \<^verbatim>\<open>object(a: string, b:
  integer)\<close>, and a heap with an empty container at address 0 and the value
  \<^verbatim>\<open>{"a": "hi"}\<close> at address 1.\<close>

definition heap_a_hi :: heap where
  "heap_a_hi = (\<lambda>a. PyDict [])(1 := PyDict [(VStr ''a'', VStr ''hi'')])"

definition object_a_b :: node where
  "object_a_b = Node Object [(''a'', Node String [] [] [] None), (''b'', Node Integer [] [] [] None)] [] [] None"

text \<open>A validator that corrects: it writes \<^verbatim>\<open>None\<close> under the key of the schema it is
  given and returns that schema.\<close>

definition overwriting :: validator where
  "overwriting key v schema h =
     (case setitem schema key VNone h of Inl e \<Rightarrow> (Inl e, h) | Inr h' \<Rightarrow> (Inr schema, h'))"

text \<open>The documented example of a choice: cases \<^verbatim>\<open>x\<close> (an integer, with a passing
  validator so that its call shows in the log) and \<^verbatim>\<open>y\<close> (a string, with the
  correcting validator), once with the element set (it has no attributes) and once as
  the module leaves the instance, without one; and the container
  \<^verbatim>\<open>{"selector": "x", "x": "42", "y": "7"}\<close> at address 0.\<close>

definition case_x :: node where
  "case_x = Node Case [(''n'', Node Integer [] [passing] [] None)] [] [] None"

definition case_y :: node where
  "case_y = Node Case [(''t'', Node String [] [overwriting] [] None)] [] [] None"

definition choice_x_y :: node where
  "choice_x_y = Node Choice [(''x'', case_x), (''y'', case_y)] [] [] (Some [])"

definition choice_without_element :: node where
  "choice_without_element = Node Choice [(''x'', case_x), (''y'', case_y)] [] [] None"

definition heap_selector :: heap where
  "heap_selector =
     (\<lambda>a. PyDict [])(0 := PyDict [(VStr ''selector'', VStr ''x''), (VStr ''x'', VStr ''42''), (VStr ''y'', VStr ''7'')])"

text \<open>The documented example of a list: the schema \<^verbatim>\<open>list(item=integer)\<close>, the list
  node and its item each with one passing validator so that the calls show in the log,
  and the value \<^verbatim>\<open>["1", "2", "x"]\<close> at address 1.\<close>

definition heap_1_2_x :: heap where
  "heap_1_2_x = (\<lambda>a. PyDict [])(1 := PyList [VStr ''1'', VStr ''2'', VStr ''x''])"

definition list_of_integer :: node where
  "list_of_integer = Node List [(''item'', Node Integer [] [passing] [] None)] [passing] [] None"

section \<open>Schema trees without bound validators\<close>





section \<open>Properties of the directive parser\<close>

lemma split_colon_no_colon: "CHR '':'' \<notin> set s \<Longrightarrow> split_colon s = (s, None)"
  by (induction s) auto

lemma split_colon_first: "CHR '':'' \<notin> set a \<Longrightarrow> split_colon (a @ CHR '':'' # b) = (a, Some b)"
  by (induction a) auto

lemma dropWhile_rev_drop:
  "dropWhile P (rev (dropWhile P (rev (dropWhile P s)))) = rev (dropWhile P (rev (dropWhile P s)))"
proof (cases "dropWhile P (rev (dropWhile P s))")
  case Nil
  show ?thesis by (simp only: Nil rev.simps dropWhile.simps)
next
  case (Cons x xs)
  define a where "a = dropWhile P s"
  have "a \<noteq> []" using Cons[folded a_def] by auto
  then have nP: "\<not> P (hd a)" unfolding a_def by (simp add: hd_dropWhile)
  obtain ys where ys: "rev a = ys @ (x # xs)"
    using Cons[folded a_def] by (metis takeWhile_dropWhile_id)
  define zs where "zs = rev (x # xs)"
  have zne: "zs \<noteq> []" by (simp add: zs_def)
  have "a = zs @ rev ys" using ys by (metis rev_append rev_rev_ident zs_def)
  then have "hd zs = hd a" using zne by simp
  with nP have "\<not> P (hd zs)" by simp
  with zne have "dropWhile P zs = zs" by (cases zs) auto
  then show ?thesis using Cons by (simp add: zs_def)
qed

lemma strip_strip: "strip (strip s) = strip s"
  unfolding strip_def using dropWhile_rev_drop[of isspace s]
  by simp

lemma set_strip: "set (strip s) \<subseteq> set s"
  unfolding strip_def
  by (metis set_dropWhileD set_rev subsetI)

lemma parse_arg_rel:
  "parse_arg ev t = Inr a \<Longrightarrow>
   (if hd (strip t) = CHR ''{'' \<and> last (strip t) = CHR ''}''
    then ev (butlast (tl (strip t))) = Inr a
    else a = VStr (strip t))"
  by (auto simp: parse_arg_def Let_def split: sum.splits if_splits)

lemma parse_args_rel:
  "parse_args ev ts = Inr args \<Longrightarrow>
   list_all2 (\<lambda>t a. if hd (strip t) = CHR ''{'' \<and> last (strip t) = CHR ''}''
                     then ev (butlast (tl (strip t))) = Inr a
                     else a = VStr (strip t)) ts args"
proof (induction ts arbitrary: args)
  case Nil
  then show ?case by simp
next
  case (Cons t ts)
  from Cons.prems obtain x xs where x: "parse_arg ev t = Inr x"
    and xs: "parse_args ev ts = Inr xs" and args: "args = x # xs"
    by (auto split: sum.splits)
  from parse_arg_rel[OF x] Cons.IH[OF xs] show ?case unfolding args by simp
qed

text \<open>
  Claim C6. \<^verbatim>\<open>parse_token\<close> splits at the first colon: a token without a colon
  yields the stripped token and no arguments; with a colon, the name is the stripped
  part before it, and the arguments correspond one by one to the argument tokens: a
  token that starts with an opening and ends with a closing brace is evaluated without
  its braces, any other token stays the stripped string. So
  \<^verbatim>\<open>parse_token("is-in: {1+2} {2+3}")\<close> is \<^verbatim>\<open>("is-in", [3, 5])\<close> when \<^verbatim>\<open>eval\<close>
  computes the two sums.
\<close>

theorem parse_token_splits_and_evaluates:
  "(CHR '':'' \<notin> set token \<longrightarrow> parse_token ev token = Inr (strip token, []))
 \<and> (strip token = a @ CHR '':'' # rest \<and> CHR '':'' \<notin> set a \<and> parse_token ev token = Inr (name, args)
      \<longrightarrow> name = strip a
        \<and> list_all2 (\<lambda>t x. if hd (strip t) = CHR ''{'' \<and> last (strip t) = CHR ''}''
                           then ev (butlast (tl (strip t))) = Inr x
                           else x = VStr (strip t)) (arg_tokens rest) args)
 \<and> (ev ''1+2'' = Inr (VInt 3) \<and> ev ''2+3'' = Inr (VInt 5)
      \<longrightarrow> parse_token ev ''is-in: {1+2} {2+3}'' = Inr (''is-in'', [VInt 3, VInt 5]))"
proof (intro conjI impI)
  assume "CHR '':'' \<notin> set token"
  then have "CHR '':'' \<notin> set (strip token)" using set_strip by fastforce
  then show "parse_token ev token = Inr (strip token, [])"
    by (simp add: parse_token_def split_colon_no_colon strip_strip)
next
  assume h: "strip token = a @ CHR '':'' # rest \<and> CHR '':'' \<notin> set a \<and> parse_token ev token = Inr (name, args)"
  then have sc: "split_colon (strip token) = (a, Some rest)" by (simp add: split_colon_first)
  from h sc show "name = strip a"
    by (auto simp: parse_token_def split: sum.splits)
  from h sc have "parse_args ev (arg_tokens rest) = Inr args"
    by (auto simp: parse_token_def split: sum.splits)
  then show "list_all2 (\<lambda>t x. if hd (strip t) = CHR ''{'' \<and> last (strip t) = CHR ''}''
                           then ev (butlast (tl (strip t))) = Inr x
                           else x = VStr (strip t)) (arg_tokens rest) args"
    by (rule parse_args_rel)
next
  assume "ev ''1+2'' = Inr (VInt 3) \<and> ev ''2+3'' = Inr (VInt 5)"
  then show "parse_token ev ''is-in: {1+2} {2+3}'' = Inr (''is-in'', [VInt 3, VInt 5])"
    by (simp add: parse_token_def strip_def isspace_def arg_tokens_def parse_arg_def)
qed

theorem parse_token_splits_and_evaluates_witness:
  "parse_token table_eval ''valid-url '' = Inr (''valid-url'', [])
   \<and> parse_token table_eval ''is-in: {1+2} x'' = Inr (''is-in'', [VInt 3, VStr ''x''])
   \<and> parse_token table_eval ''is-in: {1+2} {2+3}'' = Inr (''is-in'', [VInt 3, VInt 5])"
proof -
  have s1: "strip ''valid-url '' = ''valid-url''" by (simp add: strip_def isspace_def)
  have c1: "CHR '':'' \<notin> set ''valid-url ''" by simp
  have e: "table_eval ''1+2'' = Inr (VInt 3) \<and> table_eval ''2+3'' = Inr (VInt 5)"
    by (simp add: table_eval_def)
  have p2: "parse_token table_eval ''is-in: {1+2} x'' = Inr (''is-in'', [VInt 3, VStr ''x''])"
    by (simp add: parse_token_def strip_def isspace_def arg_tokens_def parse_arg_def table_eval_def)
  have s2: "strip ''is-in: {1+2} x'' = ''is-in'' @ CHR '':'' # '' {1+2} x''" by (simp add: strip_def isspace_def)
  have c2: "CHR '':'' \<notin> set ''is-in''" by simp
  note T = parse_token_splits_and_evaluates
  from T[of "''valid-url ''" table_eval] c1 s1
  have r1: "parse_token table_eval ''valid-url '' = Inr (''valid-url'', [])" by simp
  from T[of "''is-in: {1+2} x''" table_eval "''is-in''" "'' {1+2} x''" "''is-in''" "[VInt 3, VStr ''x'']"] s2 c2 p2
  have r2: "''is-in'' = strip ''is-in''" by blast
  from T[of _ table_eval] e
  have r3: "parse_token table_eval ''is-in: {1+2} {2+3}'' = Inr (''is-in'', [VInt 3, VInt 5])" by blast
  from r1 p2 r3 show ?thesis by simp
qed

text \<open>
  Claim C4. The comment in \<^verbatim>\<open>parse_token\<close> wants whitespace inside single quotes
  kept, but the second alternative of the pattern only adds delimiters to those of the
  first: the token \<^verbatim>\<open>name: 'hello world'\<close> comes back as two arguments,
  \<^verbatim>\<open>'hello\<close> and \<^verbatim>\<open>world'\<close>, whatever \<^verbatim>\<open>eval\<close> does.
\<close>

theorem parse_token_trailing_quote_is_split:
  "parse_token ev (''name: '' @ [CHR 0x27] @ ''hello world'' @ [CHR 0x27])
     = Inr (''name'', [VStr ([CHR 0x27] @ ''hello''), VStr (''world'' @ [CHR 0x27])])"
  by (simp add: parse_token_def strip_def isspace_def arg_tokens_def parse_arg_def)

section \<open>Properties of validation\<close>

text \<open>
  Claim C10. A scalar node without bound validators returns the container it was given
  and leaves the state as it was: the typed value that \<^verbatim>\<open>from_str\<close> computes is not
  written anywhere. When \<^verbatim>\<open>from_str\<close> raises, the exception propagates, again with the
  state untouched.
\<close>

theorem scalar_validate_leaves_container:
  "cls self \<notin> {List, Object, Choice, Case} \<Longrightarrow> validators self = [] \<Longrightarrow> 0 < fuel \<Longrightarrow>
   validate fuel env self key v schema s =
     Some (case from_str env self v of Inl e \<Rightarrow> (Inl e, s) | Inr typed \<Rightarrow> (Inr schema, s))"
proof -
  assume c: "cls self \<notin> {List, Object, Choice, Case}" and vs: "validators self = []" and f: "0 < fuel"
  from f obtain n where n: "fuel = Suc n" by (cases fuel) auto
  from c vs have "DataType_validate env self key v schema s =
      (case from_str env self v of Inl e \<Rightarrow> (Inl e, s) | Inr typed \<Rightarrow> (Inr schema, s))"
    by (simp add: DataType_validate_def self_validators_def split: sum.splits)
  moreover from c have "validate (Suc n) env self key v schema s = Some (DataType_validate env self key v schema s)"
    by (cases "cls self") (simp_all add: validate.simps)
  ultimately show ?thesis using n by simp
qed

theorem scalar_validate_leaves_container_witness:
  "from_str sample_env (Node Integer [] [] [] None) (VStr ''42'') = Inr (VInt 42)
   \<and> validate 1 sample_env (Node Integer [] [] [] None) (VStr ''n'') (VStr ''42'') (VRef 0)
        \<lparr>heap = (\<lambda>a. PyDict []), calls = []\<rparr>
      = Some (Inr (VRef 0), \<lparr>heap = (\<lambda>a. PyDict []), calls = []\<rparr>)
   \<and> validate 1 sample_env (Node Integer [] [] [] None) (VStr ''n'') (VStr ''x'') (VRef 0)
        \<lparr>heap = (\<lambda>a. PyDict []), calls = []\<rparr>
      = Some (Inl ValueError, \<lparr>heap = (\<lambda>a. PyDict []), calls = []\<rparr>)"
proof -
  have f1: "from_str sample_env (Node Integer [] [] [] None) (VStr ''42'') = Inr (VInt 42)"
    by (simp add: from_str_def sample_env_def sample_int_def int_of_string_def int_space_def
        isspace_def is_digit_def digit_val_def)
  have f2: "from_str sample_env (Node Integer [] [] [] None) (VStr ''x'') = Inl ValueError"
    by (simp add: from_str_def sample_env_def sample_int_def int_of_string_def int_space_def
        isspace_def is_digit_def digit_val_def)
  have c: "cls (Node Integer [] [] [] None) \<notin> {List, Object, Choice, Case}" by simp
  have v: "validators (Node Integer [] [] [] None) = []" by simp
  have p: "0 < (1::nat)" by simp
  note T = scalar_validate_leaves_container[OF c v p, of sample_env "VStr ''n''" _ "VRef 0"]
  from T[of "VStr ''42''"] T[of "VStr ''x''"] f1 f2 show ?thesis by simp
qed

section \<open>Properties of construction\<close>

text \<open>
  Claim C3. A \<^verbatim>\<open>time-format\<close> attribute does not reach \<^verbatim>\<open>Time.from_str\<close>. As the
  module stands, \<^verbatim>\<open>Time.from_xml\<close> raises TypeError in its call of the base method.
  Given a base method that returns the node \<^verbatim>\<open>Time.__init__\<close> builds, it stores the
  attribute under \<^verbatim>\<open>date_format\<close>, and \<^verbatim>\<open>from_str\<close> goes on parsing with the default
  \<^verbatim>\<open>%H:%M:%S\<close>. \<^verbatim>\<open>Date.from_xml\<close>, written the same way, does override its pattern.
\<close>

theorem time_format_attribute_not_used:
  "Time_from_xml super_from_xml el strict = Inl TypeError
   \<and> Time_from_xml (\<lambda>el strict. Inr Time_init)
        \<lparr>tag = ''time'', attrib = [(''name'', ''t''), (''time-format'', ''%H:%M'')]\<rparr> strict
      = Inr (Node Time [] [] [(''time_format'', ''%H:%M:%S''), (''date_format'', ''%H:%M'')] None)
   \<and> from_str env (Node Time [] [] [(''time_format'', ''%H:%M:%S''), (''date_format'', ''%H:%M'')] None) (VStr str)
      = strptime_time env (VStr str) ''%H:%M:%S''
   \<and> Date_from_xml (\<lambda>el strict. Inr Date_init)
        \<lparr>tag = ''date'', attrib = [(''name'', ''d''), (''date-format'', ''%d/%m/%Y'')]\<rparr> strict
      = Inr (Node Date [] [] [(''date_format'', ''%d/%m/%Y'')] None)"
  by (simp add: Time_from_xml_def Date_from_xml_def super_from_xml_def Time_init_def Date_init_def
      setattr_def from_str_def)

section \<open>Properties of the binder\<close>

lemma loop_lenient:
  "types_to_validators (tag el) = Some applicable \<Longrightarrow>
   get_validators_loop False types_to_validators registry (Some el) parsed vs unreg = Inr (vs', unreg') \<Longrightarrow>
   unreg' = unreg @ filter (\<lambda>n. n \<notin> set applicable) (map fst parsed)
   \<and> (\<exists>new. vs' = vs @ new
        \<and> list_all2 (\<lambda>entry v. \<exists>c. registry (fst entry) = Some c
                \<and> c (snd entry) (map_of (attrib el) (''on-fail-'' @ fst entry)) = Inr v)
             (filter (\<lambda>entry. fst entry \<in> set applicable) parsed) new)"
proof (induction parsed arbitrary: vs unreg)
  case Nil
  then show ?case by simp
next
  case (Cons entry parsed)
  obtain name args where entry: "entry = (name, args)" by (cases entry)
  show ?case
  proof (cases "name \<in> set applicable")
    case False
    with Cons.prems entry
    have "get_validators_loop False types_to_validators registry (Some el) parsed vs (unreg @ [name]) = Inr (vs', unreg')"
      by simp
    from Cons.IH[OF Cons.prems(1) this] False entry show ?thesis by simp
  next
    case True
    with Cons.prems entry obtain c v where c: "registry name = Some c"
      and v: "c args (map_of (attrib el) (''on-fail-'' @ name)) = Inr v"
      and rest: "get_validators_loop False types_to_validators registry (Some el) parsed (vs @ [v]) unreg = Inr (vs', unreg')"
      by (auto split: option.splits sum.splits)
    from Cons.IH[OF Cons.prems(1) rest] obtain new where
      u: "unreg' = unreg @ filter (\<lambda>n. n \<notin> set applicable) (map fst parsed)"
      and n: "vs' = (vs @ [v]) @ new"
      and l: "list_all2 (\<lambda>entry v. \<exists>c. registry (fst entry) = Some c
                \<and> c (snd entry) (map_of (attrib el) (''on-fail-'' @ fst entry)) = Inr v)
             (filter (\<lambda>entry. fst entry \<in> set applicable) parsed) new"
      by blast
    have "vs' = vs @ (v # new)" using n by simp
    moreover have "list_all2 (\<lambda>entry v. \<exists>c. registry (fst entry) = Some c
                \<and> c (snd entry) (map_of (attrib el) (''on-fail-'' @ fst entry)) = Inr v)
             (filter (\<lambda>entry. fst entry \<in> set applicable) (entry # parsed)) (v # new)"
      using l c v True entry by simp
    ultimately show ?thesis using u True entry by auto
  qed
qed

lemma loop_strict_fails:
  "types_to_validators (tag el) = Some applicable \<Longrightarrow>
   \<exists>entry \<in> set parsed. fst entry \<notin> set applicable \<Longrightarrow>
   \<exists>e. get_validators_loop True types_to_validators registry (Some el) parsed vs unreg = Inl e"
proof (induction parsed arbitrary: vs unreg)
  case Nil
  then show ?case by simp
next
  case (Cons entry parsed)
  obtain name args where entry: "entry = (name, args)" by (cases entry)
  show ?case
  proof (cases "name \<in> set applicable")
    case False
    with Cons.prems entry show ?thesis by simp
  next
    case True
    with Cons.prems entry have ex: "\<exists>entry \<in> set parsed. fst entry \<notin> set applicable" by auto
    from Cons.IH[OF Cons.prems(1) ex] True Cons.prems(1) entry show ?thesis
      by (auto split: option.splits sum.splits)
  qed
qed

lemma loop_strict_ValueError:
  "types_to_validators (tag el) = Some applicable \<Longrightarrow>
   \<exists>entry \<in> set parsed. fst entry \<notin> set applicable \<Longrightarrow>
   \<forall>entry \<in> set parsed. fst entry \<in> set applicable \<longrightarrow>
      (\<exists>c v. registry (fst entry) = Some c
             \<and> c (snd entry) (map_of (attrib el) (''on-fail-'' @ fst entry)) = Inr v) \<Longrightarrow>
   get_validators_loop True types_to_validators registry (Some el) parsed vs unreg = Inl ValueError"
proof (induction parsed arbitrary: vs unreg)
  case Nil
  then show ?case by simp
next
  case (Cons entry parsed)
  obtain name args where entry: "entry = (name, args)" by (cases entry)
  show ?case
  proof (cases "name \<in> set applicable")
    case False
    with Cons.prems entry show ?thesis by simp
  next
    case True
    with Cons.prems entry have ex: "\<exists>entry \<in> set parsed. fst entry \<notin> set applicable" by auto
    from Cons.prems(3) have all: "\<forall>entry \<in> set parsed. fst entry \<in> set applicable \<longrightarrow>
      (\<exists>c v. registry (fst entry) = Some c
             \<and> c (snd entry) (map_of (attrib el) (''on-fail-'' @ fst entry)) = Inr v)" by simp
    from Cons.prems(3) True entry obtain c v where "registry name = Some c"
      "c args (map_of (attrib el) (''on-fail-'' @ name)) = Inr v" by fastforce
    with Cons.IH[OF Cons.prems(1) ex all] True Cons.prems(1) entry show ?thesis by simp
  qed
qed

lemma loop_lenient_returns:
  "types_to_validators (tag el) = Some applicable \<Longrightarrow>
   \<forall>entry \<in> set parsed. fst entry \<in> set applicable \<longrightarrow>
      (\<exists>c v. registry (fst entry) = Some c
             \<and> c (snd entry) (map_of (attrib el) (''on-fail-'' @ fst entry)) = Inr v) \<Longrightarrow>
   \<exists>r. get_validators_loop False types_to_validators registry (Some el) parsed vs unreg = Inr r"
proof (induction parsed arbitrary: vs unreg)
  case Nil
  then show ?case by simp
next
  case (Cons entry parsed)
  obtain name args where entry: "entry = (name, args)" by (cases entry)
  from Cons.prems(2) have all: "\<forall>entry \<in> set parsed. fst entry \<in> set applicable \<longrightarrow>
      (\<exists>c v. registry (fst entry) = Some c
             \<and> c (snd entry) (map_of (attrib el) (''on-fail-'' @ fst entry)) = Inr v)" by simp
  show ?case
  proof (cases "name \<in> set applicable")
    case False
    with Cons.IH[OF Cons.prems(1) all] Cons.prems(1) entry show ?thesis by simp
  next
    case True
    from Cons.prems(2) True entry obtain c v where "registry name = Some c"
      "c args (map_of (attrib el) (''on-fail-'' @ name)) = Inr v" by fastforce
    with Cons.IH[OF Cons.prems(1) all] True Cons.prems(1) entry show ?thesis by simp
  qed
qed

lemma loop_other_failures_propagate:
  "types_to_validators (tag el) = Some applicable \<Longrightarrow>
   \<exists>entry \<in> set parsed. fst entry \<in> set applicable \<and>
      \<not> (\<exists>c v. registry (fst entry) = Some c
             \<and> c (snd entry) (map_of (attrib el) (''on-fail-'' @ fst entry)) = Inr v) \<Longrightarrow>
   \<exists>e. get_validators_loop strict types_to_validators registry (Some el) parsed vs unreg = Inl e"
proof (induction parsed arbitrary: vs unreg)
  case Nil
  then show ?case by simp
next
  case (Cons entry parsed)
  obtain name args where entry: "entry = (name, args)" by (cases entry)
  show ?case
  proof (cases "fst entry \<in> set applicable \<and>
      \<not> (\<exists>c v. registry (fst entry) = Some c
             \<and> c (snd entry) (map_of (attrib el) (''on-fail-'' @ fst entry)) = Inr v)")
    case True
    with Cons.prems(1) entry show ?thesis
      by (auto split: option.splits sum.splits)
  next
    case False
    with Cons.prems(2) have ex: "\<exists>entry \<in> set parsed. fst entry \<in> set applicable \<and>
      \<not> (\<exists>c v. registry (fst entry) = Some c
             \<and> c (snd entry) (map_of (attrib el) (''on-fail-'' @ fst entry)) = Inr v)" by auto
    from Cons.IH[OF Cons.prems(1) ex] Cons.prems(1) entry show ?thesis
      by (auto split: option.splits sum.splits)
  qed
qed


text \<open>
  Claim C7. Let a parsed entry name a validator that is not applicable to the element's
  tag. In strict mode \<^verbatim>\<open>get_validators\<close> fails, and with ValueError (the
  specification's BindingError) when the applicable entries can be constructed. In lenient mode a
  result holds the name among the unregistered ones, which are exactly the
  inapplicable names in order, and holds one validator for each applicable entry
  and none for the others; the result exists when the applicable entries can be
  constructed. Nothing else is recovered: an applicable entry whose registry lookup or
  constructor fails makes lenient mode fail too.
\<close>

theorem get_validators_unregistered_name:
  assumes p: "parse ev format = Inr parsed"
    and t: "types_to_validators (tag el) = Some applicable"
    and m: "(name, args) \<in> set parsed"
    and n: "name \<notin> set applicable"
  shows "(\<exists>e. get_validators ev types_to_validators registry format (Some el) True = Inl e)
    \<and> ((\<forall>entry \<in> set parsed. fst entry \<in> set applicable \<longrightarrow>
           (\<exists>c v. registry (fst entry) = Some c
                  \<and> c (snd entry) (map_of (attrib el) (''on-fail-'' @ fst entry)) = Inr v))
        \<longrightarrow> get_validators ev types_to_validators registry format (Some el) True = Inl ValueError
          \<and> (\<exists>r. get_validators ev types_to_validators registry format (Some el) False = Inr r))
    \<and> (get_validators ev types_to_validators registry format (Some el) False = Inr (vs, unreg)
        \<longrightarrow> name \<in> set unreg
          \<and> unreg = filter (\<lambda>n. n \<notin> set applicable) (map fst parsed)
          \<and> list_all2 (\<lambda>entry v. \<exists>c. registry (fst entry) = Some c
                  \<and> c (snd entry) (map_of (attrib el) (''on-fail-'' @ fst entry)) = Inr v)
               (filter (\<lambda>entry. fst entry \<in> set applicable) parsed) vs)
    \<and> ((\<exists>entry \<in> set parsed. fst entry \<in> set applicable \<and>
           \<not> (\<exists>c v. registry (fst entry) = Some c
                  \<and> c (snd entry) (map_of (attrib el) (''on-fail-'' @ fst entry)) = Inr v))
        \<longrightarrow> (\<exists>e. get_validators ev types_to_validators registry format (Some el) False = Inl e))"
proof (intro conjI impI)
  from m n have ex: "\<exists>entry \<in> set parsed. fst entry \<notin> set applicable" by force
  show "\<exists>e. get_validators ev types_to_validators registry format (Some el) True = Inl e"
    using loop_strict_fails[where types_to_validators=types_to_validators and el=el, OF t ex] p by (simp add: get_validators_def)
  {
    assume all: "\<forall>entry \<in> set parsed. fst entry \<in> set applicable \<longrightarrow>
           (\<exists>c v. registry (fst entry) = Some c
                  \<and> c (snd entry) (map_of (attrib el) (''on-fail-'' @ fst entry)) = Inr v)"
    show "get_validators ev types_to_validators registry format (Some el) True = Inl ValueError"
      using loop_strict_ValueError[where types_to_validators=types_to_validators and el=el, OF t ex all] p by (simp add: get_validators_def)
    show "\<exists>r. get_validators ev types_to_validators registry format (Some el) False = Inr r"
      using loop_lenient_returns[where types_to_validators=types_to_validators and el=el, OF t all] p by (simp add: get_validators_def)
  }
  {
    assume r: "get_validators ev types_to_validators registry format (Some el) False = Inr (vs, unreg)"
    with p have "get_validators_loop False types_to_validators registry (Some el) parsed [] [] = Inr (vs, unreg)"
      by (simp add: get_validators_def)
    from loop_lenient[where types_to_validators=types_to_validators and el=el, OF t this]
    show u: "unreg = filter (\<lambda>n. n \<notin> set applicable) (map fst parsed)"
      and "list_all2 (\<lambda>entry v. \<exists>c. registry (fst entry) = Some c
                  \<and> c (snd entry) (map_of (attrib el) (''on-fail-'' @ fst entry)) = Inr v)
               (filter (\<lambda>entry. fst entry \<in> set applicable) parsed) vs"
      by auto
    from m n show "name \<in> set unreg" unfolding u by force
  }
  {
    assume "\<exists>entry \<in> set parsed. fst entry \<in> set applicable \<and>
           \<not> (\<exists>c v. registry (fst entry) = Some c
                  \<and> c (snd entry) (map_of (attrib el) (''on-fail-'' @ fst entry)) = Inr v)"
    from loop_other_failures_propagate[where types_to_validators=types_to_validators and el=el, OF t this]
    show "\<exists>e. get_validators ev types_to_validators registry format (Some el) False = Inl e"
      using p by (simp add: get_validators_def)
  }
qed

theorem get_validators_unregistered_name_witness:
  "get_validators table_eval sample_types_to_validators sample_registry
      (Some ''valid-url; is-reachable; length: 1 10'') (Some sample_element) True = Inl ValueError
   \<and> get_validators table_eval sample_types_to_validators sample_registry
      (Some ''valid-url; is-reachable; length: 1 10'') (Some sample_element) False
     = Inr ([(''valid-url'', [], None), (''length'', [VStr ''1'', VStr ''10''], Some ''fix'')],
            [''is-reachable''])
   \<and> ''is-reachable'' \<in> set [''is-reachable'']"
proof -
  let ?parsed = "[(''valid-url'', []), (''is-reachable'', []), (''length'', [VStr ''1'', VStr ''10''])]"
  have p: "parse table_eval (Some ''valid-url; is-reachable; length: 1 10'') = Inr ?parsed"
    by (simp add: parse_def tokens_def parse_token_def strip_def isspace_def arg_tokens_def parse_arg_def)
  have t: "sample_types_to_validators (tag sample_element) = Some [''valid-url'', ''length'']"
    by (simp add: sample_types_to_validators_def sample_element_def)
  have m: "(''is-reachable'', []) \<in> set ?parsed" by simp
  have n: "''is-reachable'' \<notin> set [''valid-url'', ''length'']" by simp
  have all: "\<forall>entry \<in> set ?parsed. fst entry \<in> set [''valid-url'', ''length''] \<longrightarrow>
           (\<exists>c v. sample_registry (fst entry) = Some c
                  \<and> c (snd entry) (map_of (attrib sample_element) (''on-fail-'' @ fst entry)) = Inr v)"
    by (simp add: sample_registry_def)
  have l: "get_validators table_eval sample_types_to_validators sample_registry
      (Some ''valid-url; is-reachable; length: 1 10'') (Some sample_element) False
     = Inr ([(''valid-url'', [], None), (''length'', [VStr ''1'', VStr ''10''], Some ''fix'')],
            [''is-reachable''])"
    by (simp add: get_validators_def p sample_types_to_validators_def sample_registry_def sample_element_def)
  note T = get_validators_unregistered_name[where ev=table_eval
      and types_to_validators=sample_types_to_validators and el=sample_element
      and registry=sample_registry
      and vs="[(''valid-url'', [], None), (''length'', [VStr ''1'', VStr ''10''], Some ''fix'')]"
      and unreg="[''is-reachable'']", OF p t m n]
  from T all have s: "get_validators table_eval sample_types_to_validators sample_registry
      (Some ''valid-url; is-reachable; length: 1 10'') (Some sample_element) True = Inl ValueError"
    by blast
  from T l have "''is-reachable'' \<in> set [''is-reachable'']" by blast
  with s l show ?thesis by simp
qed

section \<open>Properties of \<^verbatim>\<open>Object.validate\<close>\<close>

lemma seq_index_less: "seq_index len k = Inr i \<Longrightarrow> i < len"
  by (auto simp: seq_index_def Let_def split: pyval.splits if_splits)

lemma dict_lookup_store: "dict_lookup (dict_store m k v) k = Some v"
  by (induction m) auto

lemma getitem_setitem: "setitem c k v h = Inr h' \<Longrightarrow> getitem c k h' = Inr v"
proof -
  assume a: "setitem c k v h = Inr h'"
  then obtain a where c: "c = VRef a" by (cases c) (auto simp: setitem_def)
  show ?thesis
  proof (cases "h a")
    case (PyList xs)
    with a c obtain i where i: "seq_index (length xs) k = Inr i" and h': "h' = h(a := PyList (xs[i := v]))"
      by (auto simp: setitem_def split: sum.splits)
    from seq_index_less[OF i] i h' c show ?thesis by (simp add: getitem_def)
  next
    case (PyDict m)
    with a c have "hashable k" and "h' = h(a := PyDict (dict_store m k v))"
      by (auto simp: setitem_def split: if_splits)
    with c show ?thesis by (simp add: getitem_def dict_lookup_store)
  qed
qed






lemma Object_validate_returns_iff:
  "children self \<noteq> [] \<Longrightarrow>
   (Object_validate rec self key v schema s = Some (Inr r, s')) =
   (\<exists>schema1 s1 v' s2 h.
      run_validators (validators self) key v schema s = (Inr schema1, s1)
    \<and> Object_children rec (children self) v s1 = Some (Inr v', s2)
    \<and> setitem schema1 key v' (heap s2) = Inr h \<and> s' = s2\<lparr>heap := h\<rparr> \<and> r = schema1)"
  by (auto simp: Object_validate_def split: prod.splits sum.splits option.splits)


lemmas run =
  validate.simps Object_validate_def List_validate_def Choice_validate_def Case_validate_def
  DataType_validate_def from_str_def self_validators_def dict_get_def setitem_def getitem_def
  py_iter_def iter_next_def seq_index_def children_getitem_def sample_env_def sample_int_def
  int_of_string_def int_space_def strip_def isspace_def is_digit_def digit_val_def passing_def

text \<open>
  Claim C9, as the code has it. An object node without declared children returns
  straight after its own validators and writes nothing. With at least one declared
  child, a call returns exactly when the node's validators return, the loop over the
  children returns, and the write of the object that came out of the loop under \<open>key\<close>
  of the container the validators returned succeeds; that write is the last step, the
  call returns that container, and the container then holds the object under \<open>key\<close>.
\<close>

theorem Object_validate_writes_unless_childless:
  assumes "cls self = Object"
  shows "(children self = [] \<longrightarrow>
      validate (Suc n) env self key v schema s = Some (run_validators (validators self) key v schema s))
 \<and> (children self \<noteq> [] \<longrightarrow>
      (validate (Suc n) env self key v schema s = Some (Inr r, s')) =
      (\<exists>schema1 s1 v' s2 h.
          run_validators (validators self) key v schema s = (Inr schema1, s1)
        \<and> Object_children (validate n env) (children self) v s1 = Some (Inr v', s2)
        \<and> setitem schema1 key v' (heap s2) = Inr h \<and> s' = s2\<lparr>heap := h\<rparr> \<and> r = schema1
        \<and> getitem r key (heap s') = Inr v'))"
proof (intro conjI impI)
  assume "children self = []"
  with assms show "validate (Suc n) env self key v schema s = Some (run_validators (validators self) key v schema s)"
    by (auto simp: validate.simps Object_validate_def split: prod.splits sum.splits)
next
  assume ne: "children self \<noteq> []"
  have g: "\<And>schema1 v' s2 h. setitem schema1 key v' (heap s2) = Inr h \<Longrightarrow>
      getitem schema1 key (heap (s2\<lparr>heap := h\<rparr>)) = Inr v'"
    using getitem_setitem by simp
  from assms have "(validate (Suc n) env self key v schema s = Some (Inr r, s')) =
      (Object_validate (validate n env) self key v schema s = Some (Inr r, s'))"
    by (simp add: validate.simps)
  also have "\<dots> = (\<exists>schema1 s1 v' s2 h.
          run_validators (validators self) key v schema s = (Inr schema1, s1)
        \<and> Object_children (validate n env) (children self) v s1 = Some (Inr v', s2)
        \<and> setitem schema1 key v' (heap s2) = Inr h \<and> s' = s2\<lparr>heap := h\<rparr> \<and> r = schema1)"
    by (rule Object_validate_returns_iff[OF ne])
  also have "\<dots> = (\<exists>schema1 s1 v' s2 h.
          run_validators (validators self) key v schema s = (Inr schema1, s1)
        \<and> Object_children (validate n env) (children self) v s1 = Some (Inr v', s2)
        \<and> setitem schema1 key v' (heap s2) = Inr h \<and> s' = s2\<lparr>heap := h\<rparr> \<and> r = schema1
        \<and> getitem r key (heap s') = Inr v')"
    using g by blast
  finally show "(validate (Suc n) env self key v schema s = Some (Inr r, s')) =
      (\<exists>schema1 s1 v' s2 h.
          run_validators (validators self) key v schema s = (Inr schema1, s1)
        \<and> Object_children (validate n env) (children self) v s1 = Some (Inr v', s2)
        \<and> setitem schema1 key v' (heap s2) = Inr h \<and> s' = s2\<lparr>heap := h\<rparr> \<and> r = schema1
        \<and> getitem r key (heap s') = Inr v')" .
qed

text \<open>
  Claim C9 as stated fails for an object node without children: the container is
  returned as it was, without an entry under the key.
\<close>

theorem Object_validate_childless_counterexample:
  "validate 1 sample_env (Node Object [] [] [] None) (VStr ''k'') (VRef 1) (VRef 0) \<lparr>heap = heap_a_hi, calls = []\<rparr>
     = Some (Inr (VRef 0), \<lparr>heap = heap_a_hi, calls = []\<rparr>)
   \<and> getitem (VRef 0) (VStr ''k'') heap_a_hi = Inl KeyError"
  by (simp add: run heap_a_hi_def)

theorem Object_validate_writes_unless_childless_witness:
  "validate 2 sample_env object_a_b (VStr ''k'') (VRef 1) (VRef 0) \<lparr>heap = heap_a_hi, calls = []\<rparr>
     = Some (Inr (VRef 0), \<lparr>heap = heap_a_hi(0 := PyDict [(VStr ''k'', VRef 1)]), calls = []\<rparr>)
   \<and> getitem (VRef 0) (VStr ''k'') (heap_a_hi(0 := PyDict [(VStr ''k'', VRef 1)])) = Inr (VRef 1)
   \<and> validate 1 sample_env (Node Object [] [] [] None) (VStr ''k'') (VRef 1) (VRef 0) \<lparr>heap = heap_a_hi, calls = []\<rparr>
     = Some (Inr (VRef 0), \<lparr>heap = heap_a_hi, calls = []\<rparr>)"
proof -
  let ?s = "\<lparr>heap = heap_a_hi, calls = []\<rparr>"
  let ?s' = "\<lparr>heap = heap_a_hi(0 := PyDict [(VStr ''k'', VRef 1)]), calls = []\<rparr>"
  have c: "cls object_a_b = Object" and ne: "children object_a_b \<noteq> []" by (simp_all add: object_a_b_def)
  have rv: "run_validators (validators object_a_b) (VStr ''k'') (VRef 1) (VRef 0) ?s = (Inr (VRef 0), ?s)"
    by (simp add: object_a_b_def)
  have oc: "Object_children (validate (Suc 0) sample_env) (children object_a_b) (VRef 1) ?s = Some (Inr (VRef 1), ?s)"
    by (simp add: run heap_a_hi_def object_a_b_def)
  have w: "setitem (VRef 0) (VStr ''k'') (VRef 1) (heap ?s) = Inr (heap_a_hi(0 := PyDict [(VStr ''k'', VRef 1)]))"
    by (simp add: setitem_def heap_a_hi_def)
  have g: "getitem (VRef 0) (VStr ''k'') (heap ?s') = Inr (VRef 1)"
    by (simp add: getitem_def)
  note T = Object_validate_writes_unless_childless[OF c, of "Suc 0" sample_env "VStr ''k''" "VRef 1" "VRef 0" ?s
      "VRef 0" ?s']
  from T ne rv oc w g
  have r: "validate (Suc (Suc 0)) sample_env object_a_b (VStr ''k'') (VRef 1) (VRef 0) ?s = Some (Inr (VRef 0), ?s')"
    by auto
  have c0: "cls (Node Object [] [] [] None) = Object" by simp
  from Object_validate_writes_unless_childless[OF c0, of 0 sample_env "VStr ''k''" "VRef 1" "VRef 0" ?s]
  have z: "validate 1 sample_env (Node Object [] [] [] None) (VStr ''k'') (VRef 1) (VRef 0) ?s = Some (Inr (VRef 0), ?s)"
    by simp
  from r g z show ?thesis by (simp add: eval_nat_numeral)
qed







section \<open>Properties of \<^verbatim>\<open>Choice.validate\<close> and \<^verbatim>\<open>Case.validate\<close>\<close>

lemma Choice_validate_returns:
  "cls self = Choice \<Longrightarrow>
   (Choice_validate rec env self key v schema s = Some (Inr r, s')) =
   (\<exists>attributes unused s1 selected_value name child unused2 s2 h.
      element_attrib self = Some attributes
    \<and> run_validators [ChoiceValidator env (map fst (children self)) (map_of attributes ''on-fail-choice'')]
         key v schema s = (Inr unused, s1)
    \<and> getitem schema v (heap s1) = Inr selected_value
    \<and> v = VStr name \<and> map_of (children self) name = Some child
    \<and> rec child v selected_value schema s1 = Some (Inr unused2, s2)
    \<and> setitem schema key v (heap s2) = Inr h \<and> s' = s2\<lparr>heap := h\<rparr> \<and> r = schema)"
  by (auto simp: Choice_validate_def DataType_validate_def from_str_def self_validators_def
      children_getitem_def
      simp del: run_validators.simps split: prod.splits sum.splits option.splits pyval.splits)

lemma Choice_validate_without_element:
  "cls self = Choice \<Longrightarrow> element_attrib self = None \<Longrightarrow>
   Choice_validate rec env self key v schema s = Some (Inl AttributeError, s)"
  by (simp add: Choice_validate_def DataType_validate_def from_str_def self_validators_def)

lemma Case_validate_returns:
  "(Case_validate rec self key v schema s = Some (Inr r, s')) =
   (\<exists>name child others unused s1 h.
      children self = (name, child) # others
    \<and> rec child key v schema s = Some (Inr unused, s1)
    \<and> setitem schema key v (heap s1) = Inr h \<and> s' = s1\<lparr>heap := h\<rparr> \<and> r = schema)"
  by (auto simp: Case_validate_def split: list.splits prod.splits sum.splits option.splits)

text \<open>
  Claim C2. A call of \<^verbatim>\<open>validate\<close> on a choice node first reads its own validators,
  which raises AttributeError, with nothing done, on an instance whose element was
  never set. The call returns exactly when: the element is set and the validator built
  from the case names returns; the container has an entry under the passed value, the
  selector; the passed value is a string and the node has a child declared under that
  very name; that child's \<^verbatim>\<open>validate\<close>, called with the selector as key, the entry as
  value and the same container, returns; and the final write of the selector under
  \<open>key\<close> succeeds. What the validator and the child return is dropped. A case node
  returns exactly when its first child's \<^verbatim>\<open>validate\<close>, called with the same arguments,
  returns and the write of the value under the key succeeds. After the choice node has
  returned, the container it returns is the one it was given and holds the selector
  under \<open>key\<close>.
\<close>

theorem Choice_validate_selects_case:
  assumes "cls self = Choice"
  shows "(element_attrib self = None \<longrightarrow>
            validate (Suc n) env self key v schema s = Some (Inl AttributeError, s))
    \<and> ((validate (Suc n) env self key v schema s = Some (Inr r, s')) =
          (\<exists>attributes unused s1 selected_value name child unused2 s2 h.
              element_attrib self = Some attributes
            \<and> run_validators [ChoiceValidator env (map fst (children self))
                                (map_of attributes ''on-fail-choice'')]
                 key v schema s = (Inr unused, s1)
            \<and> getitem schema v (heap s1) = Inr selected_value
            \<and> v = VStr name \<and> map_of (children self) name = Some child
            \<and> validate n env child v selected_value schema s1 = Some (Inr unused2, s2)
            \<and> setitem schema key v (heap s2) = Inr h \<and> s' = s2\<lparr>heap := h\<rparr> \<and> r = schema))
    \<and> (cls branch = Case \<longrightarrow>
          (validate (Suc m) env branch k x schema s1 = Some (Inr r2, s2)) =
          (\<exists>name grandchild others unused3 s3 h.
              children branch = (name, grandchild) # others
            \<and> validate m env grandchild k x schema s1 = Some (Inr unused3, s3)
            \<and> setitem schema k x (heap s3) = Inr h \<and> s2 = s3\<lparr>heap := h\<rparr>
            \<and> r2 = schema))
    \<and> (validate (Suc n) env self key v schema s = Some (Inr r, s') \<longrightarrow>
          r = schema \<and> getitem schema key (heap s') = Inr v)"
proof (intro conjI impI)
  show i: "(validate (Suc n) env self key v schema s = Some (Inr r, s')) =
          (\<exists>attributes unused s1 selected_value name child unused2 s2 h.
              element_attrib self = Some attributes
            \<and> run_validators [ChoiceValidator env (map fst (children self))
                                (map_of attributes ''on-fail-choice'')]
                 key v schema s = (Inr unused, s1)
            \<and> getitem schema v (heap s1) = Inr selected_value
            \<and> v = VStr name \<and> map_of (children self) name = Some child
            \<and> validate n env child v selected_value schema s1 = Some (Inr unused2, s2)
            \<and> setitem schema key v (heap s2) = Inr h \<and> s' = s2\<lparr>heap := h\<rparr> \<and> r = schema)"
    using Choice_validate_returns[OF assms, of "validate n env" env key v schema s r s'] assms
    by (simp add: validate.simps)
  {
    assume "validate (Suc n) env self key v schema s = Some (Inr r, s')"
    with i obtain s2 h where w: "setitem schema key v (heap s2) = Inr h" "s' = s2\<lparr>heap := h\<rparr>" "r = schema"
      by blast
    from w(3) show "r = schema" .
    from getitem_setitem[OF w(1)] w(2) show "getitem schema key (heap s') = Inr v" by simp
  }
  {
    assume "element_attrib self = None"
    with assms show "validate (Suc n) env self key v schema s = Some (Inl AttributeError, s)"
      by (simp add: validate.simps Choice_validate_without_element)
  }
  {
    assume "cls branch = Case"
    then show "(validate (Suc m) env branch k x schema s1 = Some (Inr r2, s2)) =
          (\<exists>name grandchild others unused3 s3 h.
              children branch = (name, grandchild) # others
            \<and> validate m env grandchild k x schema s1 = Some (Inr unused3, s3)
            \<and> setitem schema k x (heap s3) = Inr h \<and> s2 = s3\<lparr>heap := h\<rparr>
            \<and> r2 = schema)"
      using Case_validate_returns[of "validate m env" branch k x schema s1 r2 s2]
      by (simp add: validate.simps)
  }
qed

theorem Choice_validate_selects_case_witness:
  "validate 3 sample_env choice_x_y (VStr ''selector'') (VStr ''x'') (VRef 0) \<lparr>heap = heap_selector, calls = []\<rparr>
     = Some (Inr (VRef 0),
         \<lparr>heap = heap_selector,
          calls = [(VStr ''selector'', VStr ''x'', VRef 0), (VStr ''x'', VInt 42, VRef 0)]\<rparr>)
   \<and> validate 1 sample_env (Node String [] [overwriting] [] None) (VStr ''y'') (VStr ''7'') (VRef 0)
        \<lparr>heap = heap_selector, calls = [(VStr ''choice'', VStr ''y'', VRef 0)]\<rparr>
     = Some (Inr (VRef 0),
         \<lparr>heap = heap_selector(0 := PyDict [(VStr ''selector'', VStr ''x''), (VStr ''x'', VStr ''42''),
                                            (VStr ''y'', VNone)]),
          calls = [(VStr ''choice'', VStr ''y'', VRef 0), (VStr ''y'', VStr ''7'', VRef 0)]\<rparr>)
   \<and> validate 3 sample_env choice_x_y (VStr ''choice'') (VStr ''y'') (VRef 0) \<lparr>heap = heap_selector, calls = []\<rparr>
     = Some (Inr (VRef 0),
         \<lparr>heap = heap_selector(0 := PyDict [(VStr ''selector'', VStr ''x''), (VStr ''x'', VStr ''42''),
                                            (VStr ''y'', VStr ''7''), (VStr ''choice'', VStr ''y'')]),
          calls = [(VStr ''choice'', VStr ''y'', VRef 0), (VStr ''y'', VStr ''7'', VRef 0)]\<rparr>)
   \<and> validate 3 sample_env choice_without_element (VStr ''selector'') (VStr ''x'') (VRef 0)
        \<lparr>heap = heap_selector, calls = []\<rparr>
     = Some (Inl AttributeError, \<lparr>heap = heap_selector, calls = []\<rparr>)"
proof -
  let ?s = "\<lparr>heap = heap_selector, calls = []\<rparr>"
  let ?int = "Node Integer [] [passing] [] None"
  let ?str = "Node String [] [overwriting] [] None"
  have c: "cls choice_x_y = Choice" and cw: "cls choice_without_element = Choice"
    by (simp_all add: choice_x_y_def choice_without_element_def)
  have el: "element_attrib choice_x_y = Some []" and nel: "element_attrib choice_without_element = None"
    by (simp_all add: choice_x_y_def choice_without_element_def)
  have cx: "cls case_x = Case" and chx: "children case_x = (''n'', ?int) # []"
    and cy: "cls case_y = Case" and chy: "children case_y = (''t'', ?str) # []"
    by (simp_all add: case_x_def case_y_def)
  have mx: "map_of (children choice_x_y) ''x'' = Some case_x"
    and my: "map_of (children choice_x_y) ''y'' = Some case_y"
    by (simp_all add: choice_x_y_def)
  have names: "map fst (children choice_x_y) = [''x'', ''y'']" by (simp add: choice_x_y_def)

  \<comment> \<open>the documented call, which selects the first case\<close>
  let ?x1 = "\<lparr>heap = heap_selector, calls = [(VStr ''selector'', VStr ''x'', VRef 0)]\<rparr>"
  let ?x' = "\<lparr>heap = heap_selector,
          calls = [(VStr ''selector'', VStr ''x'', VRef 0), (VStr ''x'', VInt 42, VRef 0)]\<rparr>"
  have xv: "run_validators [ChoiceValidator sample_env (map fst (children choice_x_y)) (map_of [] ''on-fail-choice'')]
                 (VStr ''selector'') (VStr ''x'') (VRef 0) ?s = (Inr (VRef 0), ?x1)"
    by (simp add: sample_env_def passing_def)
  have xg: "getitem (VRef 0) (VStr ''x'') (heap ?x1) = Inr (VStr ''42'')"
    by (simp add: getitem_def heap_selector_def)
  have xgc: "validate (Suc 0) sample_env ?int (VStr ''x'') (VStr ''42'') (VRef 0) ?x1 = Some (Inr (VRef 0), ?x')"
    by (simp add: run)
  have xw1: "setitem (VRef 0) (VStr ''x'') (VStr ''42'') (heap ?x') = Inr heap_selector"
    by (simp add: setitem_def heap_selector_def)
  have xw2: "setitem (VRef 0) (VStr ''selector'') (VStr ''x'') (heap ?x') = Inr heap_selector"
    by (simp add: setitem_def heap_selector_def)
  have xe: "?x' = ?x'\<lparr>heap := heap_selector\<rparr>" by simp
  note X = Choice_validate_selects_case[OF c, where n="Suc (Suc 0)" and env=sample_env
      and key="VStr ''selector''" and v="VStr ''x''" and schema="VRef 0" and s="?s" and r="VRef 0" and s'="?x'"
      and branch=case_x and m="Suc 0" and k="VStr ''x''" and x="VStr ''42''" and ?s1.0="?x1"
      and ?r2.0="VRef 0" and ?s2.0="?x'"]
  have "\<exists>name grandchild others unused3 s3 h.
              children case_x = (name, grandchild) # others
            \<and> validate (Suc 0) sample_env grandchild (VStr ''x'') (VStr ''42'') (VRef 0) ?x1 = Some (Inr unused3, s3)
            \<and> setitem (VRef 0) (VStr ''x'') (VStr ''42'') (heap s3) = Inr h \<and> ?x' = s3\<lparr>heap := h\<rparr>
            \<and> VRef 0 = VRef 0"
  proof (intro exI conjI)
    show "children case_x = (''n'', ?int) # []" by (rule chx)
    show "validate (Suc 0) sample_env ?int (VStr ''x'') (VStr ''42'') (VRef 0) ?x1 = Some (Inr (VRef 0), ?x')"
      by (rule xgc)
    show "setitem (VRef 0) (VStr ''x'') (VStr ''42'') (heap ?x') = Inr heap_selector" by (rule xw1)
    show "?x' = ?x'\<lparr>heap := heap_selector\<rparr>" by (rule xe)
    show "VRef 0 = VRef 0" by (rule refl)
  qed
  with X cx
  have xc: "validate (Suc (Suc 0)) sample_env case_x (VStr ''x'') (VStr ''42'') (VRef 0) ?x1 = Some (Inr (VRef 0), ?x')"
    by (simp only:)
  have "\<exists>attributes unused s1 selected_value name child unused2 s2 h.
              element_attrib choice_x_y = Some attributes
            \<and> run_validators [ChoiceValidator sample_env (map fst (children choice_x_y))
                                (map_of attributes ''on-fail-choice'')]
                 (VStr ''selector'') (VStr ''x'') (VRef 0) ?s = (Inr unused, s1)
            \<and> getitem (VRef 0) (VStr ''x'') (heap s1) = Inr selected_value
            \<and> VStr ''x'' = VStr name \<and> map_of (children choice_x_y) name = Some child
            \<and> validate (Suc (Suc 0)) sample_env child (VStr ''x'') selected_value (VRef 0) s1 = Some (Inr unused2, s2)
            \<and> setitem (VRef 0) (VStr ''selector'') (VStr ''x'') (heap s2) = Inr h \<and> ?x' = s2\<lparr>heap := h\<rparr>
            \<and> VRef 0 = VRef 0"
  proof (intro exI conjI)
    show "element_attrib choice_x_y = Some []" by (rule el)
    show "run_validators [ChoiceValidator sample_env (map fst (children choice_x_y)) (map_of [] ''on-fail-choice'')]
                 (VStr ''selector'') (VStr ''x'') (VRef 0) ?s = (Inr (VRef 0), ?x1)" by (rule xv)
    show "getitem (VRef 0) (VStr ''x'') (heap ?x1) = Inr (VStr ''42'')" by (rule xg)
    show "VStr ''x'' = VStr ''x''" by (rule refl)
    show "map_of (children choice_x_y) ''x'' = Some case_x" by (rule mx)
    show "validate (Suc (Suc 0)) sample_env case_x (VStr ''x'') (VStr ''42'') (VRef 0) ?x1 = Some (Inr (VRef 0), ?x')"
      by (rule xc)
    show "setitem (VRef 0) (VStr ''selector'') (VStr ''x'') (heap ?x') = Inr heap_selector" by (rule xw2)
    show "?x' = ?x'\<lparr>heap := heap_selector\<rparr>" by (rule xe)
    show "VRef 0 = VRef 0" by (rule refl)
  qed
  with X
  have xr: "validate (Suc (Suc (Suc 0))) sample_env choice_x_y (VStr ''selector'') (VStr ''x'') (VRef 0) ?s
      = Some (Inr (VRef 0), ?x')"
    by (simp only:)
  \<comment> \<open>a call that selects the second case, whose child's validator overwrites the entry\<close>
  let ?y1 = "\<lparr>heap = heap_selector, calls = [(VStr ''choice'', VStr ''y'', VRef 0)]\<rparr>"
  let ?y3 = "\<lparr>heap = heap_selector(0 := PyDict [(VStr ''selector'', VStr ''x''), (VStr ''x'', VStr ''42''),
                                            (VStr ''y'', VNone)]),
          calls = [(VStr ''choice'', VStr ''y'', VRef 0), (VStr ''y'', VStr ''7'', VRef 0)]\<rparr>"
  let ?y2 = "\<lparr>heap = heap_selector,
          calls = [(VStr ''choice'', VStr ''y'', VRef 0), (VStr ''y'', VStr ''7'', VRef 0)]\<rparr>"
  let ?hy = "heap_selector(0 := PyDict [(VStr ''selector'', VStr ''x''), (VStr ''x'', VStr ''42''),
                                            (VStr ''y'', VStr ''7''), (VStr ''choice'', VStr ''y'')])"
  let ?y' = "\<lparr>heap = ?hy,
          calls = [(VStr ''choice'', VStr ''y'', VRef 0), (VStr ''y'', VStr ''7'', VRef 0)]\<rparr>"
  have yv: "run_validators [ChoiceValidator sample_env (map fst (children choice_x_y)) (map_of [] ''on-fail-choice'')]
                 (VStr ''choice'') (VStr ''y'') (VRef 0) ?s = (Inr (VRef 0), ?y1)"
    by (simp add: sample_env_def passing_def)
  have yg: "getitem (VRef 0) (VStr ''y'') (heap ?y1) = Inr (VStr ''7'')"
    by (simp add: getitem_def heap_selector_def)
  have ygc: "validate (Suc 0) sample_env ?str (VStr ''y'') (VStr ''7'') (VRef 0) ?y1 = Some (Inr (VRef 0), ?y3)"
    by (simp add: run overwriting_def heap_selector_def)
  have yw1: "setitem (VRef 0) (VStr ''y'') (VStr ''7'') (heap ?y3) = Inr heap_selector"
    by (simp add: setitem_def heap_selector_def)
  have ye: "?y2 = ?y3\<lparr>heap := heap_selector\<rparr>" by simp
  have yw2: "setitem (VRef 0) (VStr ''choice'') (VStr ''y'') (heap ?y2) = Inr ?hy"
    by (simp add: setitem_def heap_selector_def)
  have ye': "?y' = ?y2\<lparr>heap := ?hy\<rparr>" by simp
  note Y = Choice_validate_selects_case[OF c, where n="Suc (Suc 0)" and env=sample_env
      and key="VStr ''choice''" and v="VStr ''y''" and schema="VRef 0" and s="?s" and r="VRef 0" and s'="?y'"
      and branch=case_y and m="Suc 0" and k="VStr ''y''" and x="VStr ''7''" and ?s1.0="?y1"
      and ?r2.0="VRef 0" and ?s2.0="?y2"]
  have "\<exists>name grandchild others unused3 s3 h.
              children case_y = (name, grandchild) # others
            \<and> validate (Suc 0) sample_env grandchild (VStr ''y'') (VStr ''7'') (VRef 0) ?y1 = Some (Inr unused3, s3)
            \<and> setitem (VRef 0) (VStr ''y'') (VStr ''7'') (heap s3) = Inr h \<and> ?y2 = s3\<lparr>heap := h\<rparr>
            \<and> VRef 0 = VRef 0"
  proof (intro exI conjI)
    show "children case_y = (''t'', ?str) # []" by (rule chy)
    show "validate (Suc 0) sample_env ?str (VStr ''y'') (VStr ''7'') (VRef 0) ?y1 = Some (Inr (VRef 0), ?y3)"
      by (rule ygc)
    show "setitem (VRef 0) (VStr ''y'') (VStr ''7'') (heap ?y3) = Inr heap_selector" by (rule yw1)
    show "?y2 = ?y3\<lparr>heap := heap_selector\<rparr>" by (rule ye)
    show "VRef 0 = VRef 0" by (rule refl)
  qed
  with Y cy
  have yc: "validate (Suc (Suc 0)) sample_env case_y (VStr ''y'') (VStr ''7'') (VRef 0) ?y1 = Some (Inr (VRef 0), ?y2)"
    by (simp only:)
  have "\<exists>attributes unused s1 selected_value name child unused2 s2 h.
              element_attrib choice_x_y = Some attributes
            \<and> run_validators [ChoiceValidator sample_env (map fst (children choice_x_y))
                                (map_of attributes ''on-fail-choice'')]
                 (VStr ''choice'') (VStr ''y'') (VRef 0) ?s = (Inr unused, s1)
            \<and> getitem (VRef 0) (VStr ''y'') (heap s1) = Inr selected_value
            \<and> VStr ''y'' = VStr name \<and> map_of (children choice_x_y) name = Some child
            \<and> validate (Suc (Suc 0)) sample_env child (VStr ''y'') selected_value (VRef 0) s1 = Some (Inr unused2, s2)
            \<and> setitem (VRef 0) (VStr ''choice'') (VStr ''y'') (heap s2) = Inr h \<and> ?y' = s2\<lparr>heap := h\<rparr>
            \<and> VRef 0 = VRef 0"
  proof (intro exI conjI)
    show "element_attrib choice_x_y = Some []" by (rule el)
    show "run_validators [ChoiceValidator sample_env (map fst (children choice_x_y)) (map_of [] ''on-fail-choice'')]
                 (VStr ''choice'') (VStr ''y'') (VRef 0) ?s = (Inr (VRef 0), ?y1)" by (rule yv)
    show "getitem (VRef 0) (VStr ''y'') (heap ?y1) = Inr (VStr ''7'')" by (rule yg)
    show "VStr ''y'' = VStr ''y''" by (rule refl)
    show "map_of (children choice_x_y) ''y'' = Some case_y" by (rule my)
    show "validate (Suc (Suc 0)) sample_env case_y (VStr ''y'') (VStr ''7'') (VRef 0) ?y1 = Some (Inr (VRef 0), ?y2)"
      by (rule yc)
    show "setitem (VRef 0) (VStr ''choice'') (VStr ''y'') (heap ?y2) = Inr ?hy" by (rule yw2)
    show "?y' = ?y2\<lparr>heap := ?hy\<rparr>" by (rule ye')
    show "VRef 0 = VRef 0" by (rule refl)
  qed
  with Y
  have yr: "validate (Suc (Suc (Suc 0))) sample_env choice_x_y (VStr ''choice'') (VStr ''y'') (VRef 0) ?s
      = Some (Inr (VRef 0), ?y')"
    by (simp only:)

  \<comment> \<open>the instance without an element\<close>
  note N = Choice_validate_selects_case[OF cw, where n="Suc (Suc 0)" and env=sample_env
      and key="VStr ''selector''" and v="VStr ''x''" and schema="VRef 0" and s="?s", THEN conjunct1]
  from N nel
  have nr: "validate (Suc (Suc (Suc 0))) sample_env choice_without_element (VStr ''selector'') (VStr ''x'') (VRef 0) ?s
      = Some (Inl AttributeError, ?s)"
    by (rule mp)
  from xr ygc yr nr show ?thesis by (simp add: eval_nat_numeral)
qed

section \<open>Properties of \<^verbatim>\<open>List.validate\<close>\<close>

lemma run_validators_passing:
  "\<forall>validator \<in> set vs. \<forall>k x c h. validator k x c h = (Inr c, h) \<Longrightarrow>
   run_validators vs key v schema s
     = (Inr schema, \<lparr>heap = heap s, calls = calls s @ replicate (length vs) (key, v, schema)\<rparr>)"
proof (induction vs arbitrary: s)
  case Nil
  then show ?case by simp
next
  case (Cons validator vs)
  from Cons.prems have p: "validator key v schema (heap s) = (Inr schema, heap s)" by simp
  from Cons.prems have "\<forall>validator \<in> set vs. \<forall>k x c h. validator k x c h = (Inr c, h)" by simp
  from Cons.IH[OF this] p show ?case by (simp add: replicate_append_same)
qed

text \<open>
  Claim C5. A list node with an integer item type meets the list \<^verbatim>\<open>["1", "2", "x"]\<close>;
  \<^verbatim>\<open>int\<close> reads the first two strings and raises ValueError (the specification's
  TypeCoercionError) on the third; the validators bound to the two nodes pass, that is,
  return the schema they are given and leave the heap alone. Then \<^verbatim>\<open>validate\<close> raises
  that ValueError, and the calls made until then are, in this order: the list node's
  validators on the whole list with the caller's key and container; the item's
  validators with key 0, the integer 1 and the list as container; the item's validators
  with key 1, the integer 2 and the list as container. No validator is called for
  index 2. The heap is as it was.
\<close>

theorem List_validate_integer_items:
  assumes i1: "py_int env (VStr ''1'') = Inr (VInt 1)"
    and i2: "py_int env (VStr ''2'') = Inr (VInt 2)"
    and ix: "py_int env (VStr ''x'') = Inl ValueError"
    and c: "cls self = List" and ch: "children self = (name, item_type) # others"
    and ci: "cls item_type = Integer"
    and pl: "\<forall>validator \<in> set (validators self). \<forall>k x c h. validator k x c h = (Inr c, h)"
    and pi: "\<forall>validator \<in> set (validators item_type). \<forall>k x c h. validator k x c h = (Inr c, h)"
    and h: "heap s a = PyList [VStr ''1'', VStr ''2'', VStr ''x'']"
    and f: "4 \<le> fuel"
  shows "validate fuel env self key (VRef a) schema s =
     Some (Inl ValueError,
       \<lparr>heap = heap s,
        calls = calls s @ replicate (length (validators self)) (key, VRef a, schema)
                  @ replicate (length (validators item_type)) (VInt 0, VInt 1, VRef a)
                  @ replicate (length (validators item_type)) (VInt 1, VInt 2, VRef a)\<rparr>)"
proof -
  from f obtain m where "fuel = 4 + m" using le_Suc_ex by blast
  then obtain n where n: "fuel = Suc (Suc (Suc (Suc n)))" by simp
  let ?rec = "validate (Suc (Suc (Suc n))) env"
  have it: "\<And>k x s0. ?rec item_type k x (VRef a) s0 = Some (DataType_validate env item_type k x (VRef a) s0)"
    using ci by (simp add: validate.simps)
  have sv: "self_validators env item_type = Inr (validators item_type)" using ci by (simp add: self_validators_def)
  have d1: "\<And>s0. DataType_validate env item_type (VInt 0) (VStr ''1'') (VRef a) s0 =
      (Inr (VRef a), \<lparr>heap = heap s0, calls = calls s0 @ replicate (length (validators item_type)) (VInt 0, VInt 1, VRef a)\<rparr>)"
    using ci i1 run_validators_passing[OF pi] by (simp add: DataType_validate_def from_str_def sv)
  have d2: "\<And>s0. DataType_validate env item_type (VInt 1) (VStr ''2'') (VRef a) s0 =
      (Inr (VRef a), \<lparr>heap = heap s0, calls = calls s0 @ replicate (length (validators item_type)) (VInt 1, VInt 2, VRef a)\<rparr>)"
    using ci i2 run_validators_passing[OF pi] by (simp add: DataType_validate_def from_str_def sv)
  have d3: "\<And>s0. DataType_validate env item_type (VInt 2) (VStr ''x'') (VRef a) s0 = (Inl ValueError, s0)"
    using ci ix by (simp add: DataType_validate_def from_str_def)
  let ?s1 = "\<lparr>heap = heap s, calls = calls s @ replicate (length (validators self)) (key, VRef a, schema)\<rparr>"
  have loop: "List_items ?rec (Suc (Suc (Suc n))) item_type (ListIter a) 0 (VRef a) ?s1 =
     Some (Inl ValueError,
       \<lparr>heap = heap s,
        calls = calls s @ replicate (length (validators self)) (key, VRef a, schema)
                  @ replicate (length (validators item_type)) (VInt 0, VInt 1, VRef a)
                  @ replicate (length (validators item_type)) (VInt 1, VInt 2, VRef a)\<rparr>)"
    using h by (simp add: iter_next_def it d1 d2 d3)
  show ?thesis
    unfolding n using c ch h loop run_validators_passing[OF pl, of key "VRef a" schema s]
    by (simp add: validate.simps List_validate_def py_iter_def)
qed


theorem List_validate_integer_items_witness:
  "validate 4 sample_env list_of_integer (VStr ''root'') (VRef 1) (VRef 0) \<lparr>heap = heap_1_2_x, calls = []\<rparr>
     = Some (Inl ValueError,
         \<lparr>heap = heap_1_2_x,
          calls = [(VStr ''root'', VRef 1, VRef 0), (VInt 0, VInt 1, VRef 1), (VInt 1, VInt 2, VRef 1)]\<rparr>)"
proof -
  have i: "py_int sample_env (VStr ''1'') = Inr (VInt 1)" "py_int sample_env (VStr ''2'') = Inr (VInt 2)"
    "py_int sample_env (VStr ''x'') = Inl ValueError"
    by (simp_all add: sample_env_def sample_int_def int_of_string_def int_space_def strip_def isspace_def
        is_digit_def digit_val_def)
  have c: "cls list_of_integer = List"
    "children list_of_integer = (''item'', Node Integer [] [passing] [] None) # []"
    "cls (Node Integer [] [passing] [] None) = Integer"
    by (simp_all add: list_of_integer_def)
  have p: "\<forall>validator \<in> set (validators list_of_integer). \<forall>k x c h. validator k x c h = (Inr c, h)"
    "\<forall>validator \<in> set (validators (Node Integer [] [passing] [] None)). \<forall>k x c h. validator k x c h = (Inr c, h)"
    by (simp_all add: list_of_integer_def passing_def)
  have h: "heap \<lparr>heap = heap_1_2_x, calls = []\<rparr> 1 = PyList [VStr ''1'', VStr ''2'', VStr ''x'']"
    by (simp add: heap_1_2_x_def)
  have f: "(4::nat) \<le> 4" by simp
  from List_validate_integer_items[OF i c p h f, of "VStr ''root''" "VRef 0"]
  show ?thesis by (simp add: list_of_integer_def)
qed

section \<open>Repeated validation\<close>















end
